theory Spec2Isabelle
  imports Complex_Main "HOL-Library.AList"
begin

section \<open>Data model (models/schemas.py)\<close>

text \<open>
  Texts are modelled as \<open>string\<close>, one \<open>char\<close> per code point; the embedding is exact for
  ASCII text. Python floats are modelled by \<open>real\<close> (rounding is not modelled).
\<close>

datatype FormatType = EMAIL | JSON | PDF

datatype BusinessIntent = RFQ | COMPLAINT | INVOICE | REGULATION | FRAUD_RISK | UNKNOWN


datatype Tone = POLITE | NEUTRAL | ESCALATION | THREATENING | ANGRY

text \<open>A Python float: a finite value, an infinity or NaN (all of which \<open>json.loads\<close> can produce).\<close>

datatype pyfloat = FFinite real | FPosInf | FNegInf | FNaN

text \<open>
  The values \<open>json.loads\<close> returns, which also serve as the values of a \<open>Dict[str, Any]\<close>.
  A dict is an association list in insertion order.
\<close>

datatype json =
    JNull
  | JBool bool
  | JInt int
  | JFloat pyfloat
  | JStr string
  | JList "json list"
  | JDict "(string \<times> json) list"

type_synonym pydict = "(string \<times> json) list"

record ClassificationResult =
  format_type :: FormatType
  business_intent :: BusinessIntent
  confidence_score :: real
  metadata :: pydict

text \<open>An agent output or an action outcome: a dict whose values are strings.\<close>

type_synonym strdict = "(string \<times> string) list"

record MemoryEntry =
  entry_id :: string
  input_metadata :: pydict
  classification :: ClassificationResult
  agent_outputs :: "(string \<times> strdict) list"
  actions_triggered :: "string list"
  decision_trace :: "string list"
  entry_timestamp :: string
  entry_status :: string

section \<open>Shared memory store (memory/shared_memory.py)\<close>

text \<open>
  The Redis server is modelled by the two structures the store uses: the hashes
  \<open>memory:<id>\<close>, of which only the field \<open>data\<close> is ever read back (the serialised
  entry; \<open>json.dumps\<close> followed by \<open>json.loads\<close> is taken to be the identity), and the list
  \<open>processing_queue\<close>, written head first. \<open>LPUSH\<close> puts an element at the head of the list
  and \<open>LRANGE 0 -1\<close> reads the list from head to tail. The server is taken to be reachable.
\<close>

record redis =
  hashes :: "string \<rightharpoonup> MemoryEntry"
  processing_queue :: "string list"

definition redis_empty :: redis where
  "redis_empty = \<lparr>hashes = Map.empty, processing_queue = []\<rparr>"

definition hset :: "string \<Rightarrow> MemoryEntry \<Rightarrow> redis \<Rightarrow> redis" where
  "hset k e r = r\<lparr>hashes := (hashes r)(k \<mapsto> e)\<rparr>"

definition lpush :: "string \<Rightarrow> redis \<Rightarrow> redis" where
  "lpush v r = r\<lparr>processing_queue := v # processing_queue r\<rparr>"

definition store_entry :: "MemoryEntry \<Rightarrow> redis \<Rightarrow> string \<times> redis" where
  "store_entry entry r = (entry_id entry, lpush (entry_id entry) (hset (entry_id entry) entry r))"

definition get_entry :: "string \<Rightarrow> redis \<Rightarrow> MemoryEntry option" where
  "get_entry eid r = hashes r eid"

text \<open>The dict \<open>updates\<close> overrides fields of the entry: a function on entries.\<close>

definition update_entry :: "string \<Rightarrow> (MemoryEntry \<Rightarrow> MemoryEntry) \<Rightarrow> redis \<Rightarrow> bool \<times> redis" where
  "update_entry eid updates r =
     (case get_entry eid r of
        None \<Rightarrow> (False, r)
      | Some entry \<Rightarrow> (True, snd (store_entry (updates entry) r)))"

definition add_agent_output :: "string \<Rightarrow> string \<Rightarrow> strdict \<Rightarrow> string \<Rightarrow> redis \<Rightarrow> bool \<times> redis" where
  "add_agent_output eid agent_name output now r =
     (case get_entry eid r of
        Some entry \<Rightarrow>
          update_entry eid
            (\<lambda>e. e\<lparr>agent_outputs := AList.update agent_name output (agent_outputs entry),
                   decision_trace := decision_trace entry @ [agent_name @ '': '' @ now]\<rparr>) r
      | None \<Rightarrow> (False, r))"

definition add_action_triggered :: "string \<Rightarrow> string \<Rightarrow> redis \<Rightarrow> bool \<times> redis" where
  "add_action_triggered eid action r =
     (case get_entry eid r of
        Some entry \<Rightarrow>
          update_entry eid (\<lambda>e. e\<lparr>actions_triggered := actions_triggered entry @ [action]\<rparr>) r
      | None \<Rightarrow> (False, r))"

definition get_processing_queue :: "redis \<Rightarrow> string list" where
  "get_processing_queue r = processing_queue r"

text \<open>A sequence of \<open>store_entry\<close> calls, first call first.\<close>

fun store_entries :: "MemoryEntry list \<Rightarrow> redis \<Rightarrow> redis" where
  "store_entries [] r = r"
| "store_entries (e # es) r = store_entries es (snd (store_entry e r))"

definition mk_entry :: "string \<Rightarrow> MemoryEntry" where
  "mk_entry i =
     \<lparr>entry_id = i, input_metadata = [],
      classification = \<lparr>format_type = JSON, business_intent = UNKNOWN,
                        confidence_score = 0, metadata = []\<rparr>,
      agent_outputs = [], actions_triggered = [], decision_trace = [],
      entry_timestamp = ''2024-01-01T00:00:00'', entry_status = ''processing''\<rparr>"

section \<open>Action router (routers/action_router.py)\<close>

text \<open>
  The payload a handler sends to a simulated external service. Its \<open>timestamp\<close> field (and
  that of the simulated response) holds the wall-clock time; no handler reads either, and
  they are left out.
\<close>

record payload =
  payload_type :: string
  payload_entry_id :: string
  payload_level :: "string option"
  payload_context :: pydict

definition dict_get :: "strdict \<Rightarrow> string \<Rightarrow> string \<Rightarrow> string" where
  "dict_get d k dflt = (case map_of d k of Some v \<Rightarrow> v | None \<Rightarrow> dflt)"

definition call_external_api :: "string \<Rightarrow> string \<Rightarrow> payload \<Rightarrow> strdict" where
  "call_external_api service endpoint p =
     (if service = ''crm'' then
        [(''ticket_id'', ''TKT-'' @ take 8 (payload_entry_id p)), (''status'', ''created'')]
      else if service = ''risk'' then
        [(''review_id'', ''REV-'' @ take 8 (payload_entry_id p)), (''status'', ''flagged'')]
      else
        [(''status'', ''simulated''),
         (''message'', ''Simulated call to '' @ service @ endpoint)])"

definition escalate_to_manager :: "pydict \<Rightarrow> string \<Rightarrow> strdict" where
  "escalate_to_manager context eid =
     (let response = call_external_api ''crm'' ''/escalate''
            \<lparr>payload_type = ''escalation'', payload_entry_id = eid,
             payload_level = Some ''high'', payload_context = context\<rparr>
      in [(''status'', ''escalated''),
          (''ticket_id'', dict_get response ''ticket_id'' (''ESC-'' @ take 8 eid)),
          (''assigned_to'', ''manager@company.com''),
          (''message'', ''Issue escalated to management'')])"

definition create_priority_ticket :: "pydict \<Rightarrow> string \<Rightarrow> strdict" where
  "create_priority_ticket context eid =
     (let response = call_external_api ''crm'' ''/tickets''
            \<lparr>payload_type = ''priority_ticket'', payload_entry_id = eid,
             payload_level = Some ''high'', payload_context = context\<rparr>
      in [(''status'', ''ticket_created''),
          (''ticket_id'', dict_get response ''ticket_id'' (''PRI-'' @ take 8 eid)),
          (''priority'', ''high''),
          (''message'', ''Priority ticket created'')])"

definition create_high_priority_ticket :: "pydict \<Rightarrow> string \<Rightarrow> strdict" where
  "create_high_priority_ticket context eid = create_priority_ticket context eid"

definition notify_team_lead :: "pydict \<Rightarrow> string \<Rightarrow> strdict" where
  "notify_team_lead context eid =
     [(''status'', ''notified''), (''notification_id'', ''NOT-'' @ take 8 eid),
      (''recipient'', ''teamlead@company.com''),
      (''message'', ''Team lead notified of high priority issue'')]"

definition standard_response :: "pydict \<Rightarrow> string \<Rightarrow> strdict" where
  "standard_response context eid =
     [(''status'', ''response_sent''), (''response_id'', ''RSP-'' @ take 8 eid),
      (''message'', ''Standard response sent to customer'')]"

definition log_and_track :: "pydict \<Rightarrow> string \<Rightarrow> strdict" where
  "log_and_track context eid =
     [(''status'', ''logged''), (''tracking_id'', ''TRK-'' @ take 8 eid),
      (''message'', ''Issue logged and being tracked'')]"

definition log_schema_violation :: "pydict \<Rightarrow> string \<Rightarrow> strdict" where
  "log_schema_violation context eid =
     [(''status'', ''logged''), (''violation_id'', ''SCH-'' @ take 8 eid),
      (''message'', ''Schema violation logged for review'')]"

definition notify_integration_team :: "pydict \<Rightarrow> string \<Rightarrow> strdict" where
  "notify_integration_team context eid =
     [(''status'', ''notified''), (''notification_id'', ''INT-'' @ take 8 eid),
      (''recipient'', ''integration@company.com''),
      (''message'', ''Integration team notified of data issues'')]"

definition flag_financial_review :: "pydict \<Rightarrow> string \<Rightarrow> strdict" where
  "flag_financial_review context eid =
     (let response = call_external_api ''risk'' ''/financial_review''
            \<lparr>payload_type = ''financial_review'', payload_entry_id = eid,
             payload_level = None, payload_context = context\<rparr>
      in [(''status'', ''flagged''),
          (''review_id'', dict_get response ''review_id'' (''FIN-'' @ take 8 eid)),
          (''message'', ''Flagged for financial review'')])"

definition log_data_quality_issue :: "pydict \<Rightarrow> string \<Rightarrow> strdict" where
  "log_data_quality_issue context eid =
     [(''status'', ''logged''), (''issue_id'', ''DQ-'' @ take 8 eid),
      (''message'', ''Data quality issue logged'')]"

definition quarantine_for_review :: "pydict \<Rightarrow> string \<Rightarrow> strdict" where
  "quarantine_for_review context eid =
     [(''status'', ''quarantined''), (''quarantine_id'', ''QUA-'' @ take 8 eid),
      (''message'', ''Data quarantined for manual review'')]"

definition require_manager_approval :: "pydict \<Rightarrow> string \<Rightarrow> strdict" where
  "require_manager_approval context eid =
     [(''status'', ''pending_approval''), (''approval_id'', ''APP-'' @ take 8 eid),
      (''approver'', ''manager@company.com''),
      (''message'', ''Awaiting manager approval'')]"

definition route_to_compliance_team :: "pydict \<Rightarrow> string \<Rightarrow> strdict" where
  "route_to_compliance_team context eid =
     [(''status'', ''routed''), (''routing_id'', ''COM-'' @ take 8 eid),
      (''recipient'', ''compliance@company.com''),
      (''message'', ''Routed to compliance team'')]"

definition notify_data_protection_officer :: "pydict \<Rightarrow> string \<Rightarrow> strdict" where
  "notify_data_protection_officer context eid =
     [(''status'', ''notified''), (''notification_id'', ''DPO-'' @ take 8 eid),
      (''recipient'', ''dpo@company.com''),
      (''message'', ''Data protection officer notified'')]"

definition route_to_regulatory_affairs :: "pydict \<Rightarrow> string \<Rightarrow> strdict" where
  "route_to_regulatory_affairs context eid =
     [(''status'', ''routed''), (''routing_id'', ''REG-'' @ take 8 eid),
      (''recipient'', ''regulatory@company.com''),
      (''message'', ''Routed to regulatory affairs'')]"

definition encrypt_and_secure :: "pydict \<Rightarrow> string \<Rightarrow> strdict" where
  "encrypt_and_secure context eid =
     [(''status'', ''secured''), (''security_id'', ''SEC-'' @ take 8 eid),
      (''message'', ''Document encrypted and secured'')]"

definition prioritize_processing :: "pydict \<Rightarrow> string \<Rightarrow> strdict" where
  "prioritize_processing context eid =
     [(''status'', ''prioritized''), (''priority_id'', ''PRI-'' @ take 8 eid),
      (''message'', ''Document processing prioritized'')]"

definition log_error :: "pydict \<Rightarrow> string \<Rightarrow> strdict" where
  "log_error context eid =
     [(''status'', ''logged''), (''error_id'', ''ERR-'' @ take 8 eid),
      (''message'', ''Error logged for investigation'')]"

definition alert_admin :: "pydict \<Rightarrow> string \<Rightarrow> strdict" where
  "alert_admin context eid =
     [(''status'', ''alerted''), (''alert_id'', ''ADM-'' @ take 8 eid),
      (''recipient'', ''admin@company.com''),
      (''message'', ''Administrator alerted'')]"

definition process_normally :: "pydict \<Rightarrow> string \<Rightarrow> strdict" where
  "process_normally context eid =
     [(''status'', ''processing''), (''process_id'', ''NOR-'' @ take 8 eid),
      (''message'', ''Processing normally'')]"

definition standard_processing :: "pydict \<Rightarrow> string \<Rightarrow> strdict" where
  "standard_processing context eid = process_normally context eid"

text \<open>
  What a handler can raise: an exception that is an instance of \<open>Exception\<close>, or one that
  is not (\<open>asyncio.CancelledError\<close>, \<open>KeyboardInterrupt\<close>, \<open>SystemExit\<close>: subclasses of
  \<open>BaseException\<close> only); each with its message \<open>str(e)\<close>.
\<close>

datatype raised = Exc string | BaseExc string

fun message :: "raised \<Rightarrow> string" where
  "message (Exc msg) = msg"
| "message (BaseExc msg) = msg"

text \<open>
  A handler in general: it is awaited with the context and the entry id, may act on the
  world outside the router (state \<open>'w\<close>), and either returns its outcome (\<open>Inr\<close>) or raises
  (\<open>Inl\<close>). The handlers of this repository are simulations and leave the world as it is.
\<close>

type_synonym 'w handler = "pydict \<Rightarrow> string \<Rightarrow> 'w \<Rightarrow> (raised + strdict) \<times> 'w"

definition simulated :: "(pydict \<Rightarrow> string \<Rightarrow> strdict) \<Rightarrow> 'w handler" where
  "simulated h context eid w = (Inr (h context eid), w)"

definition action_handlers :: "string \<rightharpoonup> 'w handler" where
  "action_handlers = map_of
     [(''escalate_to_manager'', simulated escalate_to_manager),
      (''create_priority_ticket'', simulated create_priority_ticket),
      (''create_high_priority_ticket'', simulated create_high_priority_ticket),
      (''notify_team_lead'', simulated notify_team_lead),
      (''standard_response'', simulated standard_response),
      (''log_and_track'', simulated log_and_track),
      (''log_schema_violation'', simulated log_schema_violation),
      (''notify_integration_team'', simulated notify_integration_team),
      (''flag_financial_review'', simulated flag_financial_review),
      (''log_data_quality_issue'', simulated log_data_quality_issue),
      (''quarantine_for_review'', simulated quarantine_for_review),
      (''require_manager_approval'', simulated require_manager_approval),
      (''route_to_compliance_team'', simulated route_to_compliance_team),
      (''notify_data_protection_officer'', simulated notify_data_protection_officer),
      (''route_to_regulatory_affairs'', simulated route_to_regulatory_affairs),
      (''encrypt_and_secure'', simulated encrypt_and_secure),
      (''prioritize_processing'', simulated prioritize_processing),
      (''log_error'', simulated log_error),
      (''alert_admin'', simulated alert_admin),
      (''process_normally'', simulated process_normally),
      (''standard_processing'', simulated standard_processing)]"

definition unknown_action :: "string \<Rightarrow> strdict" where
  "unknown_action action =
     [(''status'', ''unknown_action''), (''message'', ''No handler for action: '' @ action)]"

definition handler_error :: "string \<Rightarrow> strdict" where
  "handler_error msg = [(''status'', ''error''), (''message'', msg)]"

text \<open>
  One iteration of the loop of \<open>route_actions\<close>, on the results so far, the store and the
  world. \<open>results[action] = v\<close> replaces the value of a key already present, in place, and
  appends a new key otherwise: \<open>AList.update\<close>. The \<open>try\<close> block has \<open>except Exception\<close>: an
  exception of the handler that is an instance of \<open>Exception\<close> is caught and recorded, any
  other leaves the loop and the function (the first component of the result, with the
  state as the handler left it). \<open>add_action_triggered\<close> does not raise.
\<close>

definition route_step ::
  "(string \<rightharpoonup> 'w handler) \<Rightarrow> pydict \<Rightarrow> string \<Rightarrow> string
     \<Rightarrow> (string \<times> strdict) list \<times> redis \<times> 'w
     \<Rightarrow> raised option \<times> (string \<times> strdict) list \<times> redis \<times> 'w" where
  "route_step handlers context eid action st =
     (case st of (results, r, w) \<Rightarrow>
        (case handlers action of
           Some h \<Rightarrow>
             (case h context eid w of
                (Inr result, w') \<Rightarrow>
                  (None,
                   AList.update action result results,
                   snd (add_action_triggered eid
                          (action @ '': '' @ dict_get result ''status'' ''completed'') r),
                   w')
              | (Inl (Exc msg), w') \<Rightarrow>
                  (None, AList.update action (handler_error msg) results, r, w')
              | (Inl (BaseExc msg), w') \<Rightarrow> (Some (BaseExc msg), results, r, w'))
         | None \<Rightarrow> (None, AList.update action (unknown_action action) results, r, w)))"

fun route_loop ::
  "(string \<rightharpoonup> 'w handler) \<Rightarrow> pydict \<Rightarrow> string \<Rightarrow> string list
     \<Rightarrow> (string \<times> strdict) list \<times> redis \<times> 'w
     \<Rightarrow> raised option \<times> (string \<times> strdict) list \<times> redis \<times> 'w" where
  "route_loop handlers context eid [] st = (None, st)"
| "route_loop handlers context eid (action # actions) st =
     (case route_step handlers context eid action st of
        (None, st') \<Rightarrow> route_loop handlers context eid actions st'
      | (Some e, st') \<Rightarrow> (Some e, st'))"

text \<open>
  \<open>route_actions\<close> returns the results (\<open>Inr\<close>) or raises what a handler raised and the loop
  did not catch (\<open>Inl\<close>); either way the store and the world are as the loop left them.
\<close>

definition route_actions ::
  "(string \<rightharpoonup> 'w handler) \<Rightarrow> string list \<Rightarrow> pydict \<Rightarrow> string \<Rightarrow> redis \<times> 'w
     \<Rightarrow> (raised + (string \<times> strdict) list) \<times> redis \<times> 'w" where
  "route_actions handlers actions context eid rw =
     (case route_loop handlers context eid actions ([], rw) of
        (None, results, rw') \<Rightarrow> (Inr results, rw')
      | (Some e, results, rw') \<Rightarrow> (Inl e, rw'))"

section \<open>Python values and library functions\<close>

datatype pyerror = TypeError | ValueError | KeyError | AttributeError | OverflowError

text \<open>A raised exception is \<open>Inl\<close>; \<open>and_then\<close> runs the rest of a block on a value.\<close>

fun and_then :: "pyerror + 'a \<Rightarrow> ('a \<Rightarrow> pyerror + 'b) \<Rightarrow> pyerror + 'b" where
  "and_then (Inl e) f = Inl e"
| "and_then (Inr x) f = f x"

text \<open>\<open>s.startswith(p)\<close>, \<open>s.endswith(p)\<close> and \<open>sub in s\<close> on strings.\<close>

fun starts_with :: "string \<Rightarrow> string \<Rightarrow> bool" where
  "starts_with s [] = True"
| "starts_with [] (p # ps) = False"
| "starts_with (c # cs) (p # ps) = (c = p \<and> starts_with cs ps)"

definition ends_with :: "string \<Rightarrow> string \<Rightarrow> bool" where
  "ends_with s p = starts_with (rev s) (rev p)"

fun contains :: "string \<Rightarrow> string \<Rightarrow> bool" where
  "contains [] sub = (sub = [])"
| "contains (c # cs) sub = (starts_with (c # cs) sub \<or> contains cs sub)"

text \<open>
  \<open>str.lower()\<close> on ASCII text. A character is given by its bits, lowest first; an
  upper-case letter \<open>A\<close> to \<open>Z\<close> has the code \<open>010xxxxx\<close> with \<open>xxxxx\<close> from 1 to 26, and its
  lower-case letter is the same code with bit 5 set.
\<close>

fun lower_char :: "char \<Rightarrow> char" where
  "lower_char (Char b0 b1 b2 b3 b4 b5 b6 b7) =
     (if \<not> b7 \<and> b6 \<and> \<not> b5 \<and> (b0 \<or> b1 \<or> b2 \<or> b3 \<or> b4)
           \<and> \<not> (b4 \<and> b3 \<and> (b2 \<or> (b1 \<and> b0)))
      then Char b0 b1 b2 b3 b4 True b6 b7
      else Char b0 b1 b2 b3 b4 b5 b6 b7)"

definition lower :: "string \<Rightarrow> string" where
  "lower s = map lower_char s"

text \<open>\<open>s.replace(c, t)\<close> for a one-character \<open>c\<close>.\<close>

definition replace_char :: "char \<Rightarrow> string \<Rightarrow> string \<Rightarrow> string" where
  "replace_char c t s = concat (map (\<lambda>x. if x = c then t else [x]) s)"

text \<open>The decimal digits of a natural number: \<open>str(n)\<close>.\<close>

fun str_of_nat :: "nat \<Rightarrow> string" where
  "str_of_nat n =
     (if n < 10 then [''0123456789'' ! n]
      else str_of_nat (n div 10) @ [''0123456789'' ! (n mod 10)])"

definition str_of_bool :: "bool \<Rightarrow> string" where
  "str_of_bool b = (if b then ''True'' else ''False'')"

text \<open>
  The functions of the Python library that the agents call and that are not part of
  the repository are parameters of the model: \<open>json.loads\<close> (the value, or the message of
  the \<open>JSONDecodeError\<close>), \<open>float\<close> and \<open>int\<close> on a string (\<open>None\<close>: \<open>ValueError\<close>), whether
  \<open>datetime.fromisoformat\<close> accepts a string, and \<open>str\<close> on a value that is not a string.
\<close>

record pylib =
  json_loads :: "string \<Rightarrow> string + json"
  float_of_str :: "string \<Rightarrow> pyfloat option"
  int_of_str :: "string \<Rightarrow> int option"
  fromisoformat_ok :: "string \<Rightarrow> bool"
  repr :: "json \<Rightarrow> string"

text \<open>\<open>k in v\<close> for a string \<open>k\<close>: a key of a dict, an element of a list, a substring.\<close>

fun py_in :: "string \<Rightarrow> json \<Rightarrow> pyerror + bool" where
  "py_in k (JDict kvs) = Inr (k \<in> set (map fst kvs))"
| "py_in k (JList xs) = Inr (JStr k \<in> set xs)"
| "py_in k (JStr s) = Inr (contains s k)"
| "py_in k v = Inl TypeError"

text \<open>\<open>v[k]\<close> for a string \<open>k\<close>: only a dict can be indexed by a string.\<close>

fun py_getitem :: "json \<Rightarrow> string \<Rightarrow> pyerror + json" where
  "py_getitem (JDict kvs) k = (case map_of kvs k of Some v \<Rightarrow> Inr v | None \<Rightarrow> Inl KeyError)"
| "py_getitem v k = Inl TypeError"

fun py_len :: "json \<Rightarrow> pyerror + nat" where
  "py_len (JDict kvs) = Inr (length kvs)"
| "py_len (JList xs) = Inr (length xs)"
| "py_len (JStr s) = Inr (length s)"
| "py_len v = Inl TypeError"

text \<open>Iterating over a value: the keys of a dict, the elements of a list, the characters of a string.\<close>

fun py_iter :: "json \<Rightarrow> pyerror + json list" where
  "py_iter (JDict kvs) = Inr (map (JStr \<circ> fst) kvs)"
| "py_iter (JList xs) = Inr xs"
| "py_iter (JStr s) = Inr (map (\<lambda>c. JStr [c]) s)"
| "py_iter v = Inl TypeError"

fun py_str :: "pylib \<Rightarrow> json \<Rightarrow> string" where
  "py_str py (JStr s) = s"
| "py_str py v = repr py v"

text \<open>
  \<open>float(v)\<close>. An int too large for a double raises \<open>OverflowError\<close>; \<open>bool\<close> is a subclass
  of \<open>int\<close>.
\<close>

fun py_float :: "pylib \<Rightarrow> json \<Rightarrow> pyerror + pyfloat" where
  "py_float py (JInt n) =
     (if \<bar>n\<bar> \<ge> 2 ^ 1024 - 2 ^ 970 then Inl OverflowError else Inr (FFinite (of_int n)))"
| "py_float py (JFloat f) = Inr f"
| "py_float py (JBool b) = Inr (FFinite (if b then 1 else 0))"
| "py_float py (JStr s) = (case float_of_str py s of Some f \<Rightarrow> Inr f | None \<Rightarrow> Inl ValueError)"
| "py_float py v = Inl TypeError"

text \<open>Comparisons of a float with a number; every comparison with NaN is false.\<close>

fun float_lt :: "pyfloat \<Rightarrow> real \<Rightarrow> bool" where
  "float_lt (FFinite x) c = (x < c)"
| "float_lt FNegInf c = True"
| "float_lt f c = False"

fun float_gt :: "pyfloat \<Rightarrow> real \<Rightarrow> bool" where
  "float_gt (FFinite x) c = (x > c)"
| "float_gt FPosInf c = True"
| "float_gt f c = False"

fun is_int_or_float :: "json \<Rightarrow> bool" where
  "is_int_or_float (JInt n) = True"
| "is_int_or_float (JBool b) = True"
| "is_int_or_float (JFloat f) = True"
| "is_int_or_float v = False"

fun is_str_int_or_float :: "json \<Rightarrow> bool" where
  "is_str_int_or_float (JStr s) = True"
| "is_str_int_or_float v = is_int_or_float v"

fun is_str_or_int :: "json \<Rightarrow> bool" where
  "is_str_or_int (JStr s) = True"
| "is_str_or_int (JInt n) = True"
| "is_str_or_int (JBool b) = True"
| "is_str_or_int v = False"

section \<open>Agents: common part (agents/base_agent.py)\<close>

record agent =
  agent_name :: string
  agent_id :: string

text \<open>
  \<open>log_decision\<close> reads the clock twice (once itself, once in \<open>add_agent_output\<close>): the two
  readings are the pair \<open>clock\<close>. Nothing it calls raises.
\<close>

definition log_decision :: "agent \<Rightarrow> string \<Rightarrow> string \<Rightarrow> string \<times> string \<Rightarrow> redis \<Rightarrow> redis" where
  "log_decision self eid decision clock r =
     snd (add_agent_output eid (agent_name self)
            [(''decision'', decision), (''timestamp'', fst clock), (''agent_id'', agent_id self)]
            (snd clock) r)"

section \<open>JSON agent (agents/json_agent.py)\<close>

definition webhook_schemas :: "(string \<times> string list \<times> string list) list" where
  "webhook_schemas =
     [(''payment'', [''transaction_id'', ''amount'', ''currency'', ''status''],
                    [''user_id'', ''timestamp'', ''method'']),
      (''user_event'', [''user_id'', ''event_type'', ''timestamp''],
                       [''data'', ''session_id'', ''ip_address'']),
      (''order'', [''order_id'', ''customer_id'', ''items'', ''total''],
                  [''shipping_address'', ''billing_address'', ''status'']),
      (''system_alert'', [''alert_type'', ''severity'', ''message'', ''timestamp''],
                         [''source'', ''details'', ''correlation_id''])]"

definition has_any_field :: "(string \<times> json) list \<Rightarrow> string list \<Rightarrow> bool" where
  "has_any_field kvs names = (\<exists>f \<in> set names. f \<in> set (map fst kvs))"

fun detect_webhook_type :: "json \<Rightarrow> string" where
  "detect_webhook_type (JDict kvs) =
     (if has_any_field kvs [''transaction_id'', ''payment_id'', ''amount'', ''currency'']
        then ''payment''
      else if has_any_field kvs [''user_id'', ''event_type'', ''session_id'']
        then ''user_event''
      else if has_any_field kvs [''order_id'', ''customer_id'', ''items'']
        then ''order''
      else if has_any_field kvs [''alert_type'', ''severity'', ''message'']
        then ''system_alert''
      else ''generic'')"
| "detect_webhook_type v = ''unknown''"

text \<open>The loop over the required fields of \<open>_validate_schema\<close>; it returns the errors it appends.\<close>

fun check_required :: "json \<Rightarrow> string list \<Rightarrow> pyerror + string list" where
  "check_required d [] = Inr []"
| "check_required d (field # names) =
     and_then (py_in field d) (\<lambda>present.
     and_then (if \<not> present then Inr [''Missing required field: '' @ field]
               else and_then (py_getitem d field) (\<lambda>v.
                 Inr (if v = JNull
                      then [''Required field '' @ [CHR 0x27] @ field @ [CHR 0x27] @ '' is null'']
                      else []))) (\<lambda>errs.
     and_then (check_required d names) (\<lambda>rest. Inr (errs @ rest))))"

text \<open>The loop over the fields of \<open>_validate_field_types\<close>.\<close>

fun check_id_fields :: "json \<Rightarrow> json list \<Rightarrow> pyerror + string list" where
  "check_id_fields d [] = Inr []"
| "check_id_fields d (JStr field # names) =
     and_then (if ends_with field ''_id''
               then and_then (py_getitem d field) (\<lambda>v.
                 Inr (if \<not> is_str_or_int v
                      then [''ID field '' @ [CHR 0x27] @ field @ [CHR 0x27]
                              @ '' should be string or number'']
                      else []))
               else Inr []) (\<lambda>errs.
     and_then (check_id_fields d names) (\<lambda>rest. Inr (errs @ rest)))"
| "check_id_fields d (v # names) = Inl AttributeError"

definition validate_field_types :: "json \<Rightarrow> pyerror + string list" where
  "validate_field_types d =
     and_then (py_in ''amount'' d) (\<lambda>has_amount.
     and_then (if has_amount
               then and_then (py_getitem d ''amount'') (\<lambda>v.
                 Inr (if \<not> is_int_or_float v
                      then [''Field '' @ [CHR 0x27] @ ''amount'' @ [CHR 0x27] @ '' should be numeric'']
                      else []))
               else Inr []) (\<lambda>errs1.
     and_then (py_in ''timestamp'' d) (\<lambda>has_timestamp.
     and_then (if has_timestamp
               then and_then (py_getitem d ''timestamp'') (\<lambda>v.
                 Inr (if \<not> is_str_int_or_float v
                      then [''Field '' @ [CHR 0x27] @ ''timestamp'' @ [CHR 0x27]
                              @ '' should be string or number'']
                      else []))
               else Inr []) (\<lambda>errs2.
     and_then (py_iter d) (\<lambda>names.
     and_then (check_id_fields d names) (\<lambda>errs3.
     Inr (errs1 @ errs2 @ errs3)))))))"

definition validate_schema :: "json \<Rightarrow> string \<Rightarrow> pyerror + bool \<times> string list" where
  "validate_schema d webhook_type =
     (case map_of webhook_schemas webhook_type of
        None \<Rightarrow> Inr (True, [])
      | Some (required_fields, optional_fields) \<Rightarrow>
          and_then (check_required d required_fields) (\<lambda>errs1.
          and_then (validate_field_types d) (\<lambda>errs2.
          Inr (errs1 @ errs2 = [], errs1 @ errs2))))"

text \<open>The four checks of \<open>_detect_anomalies\<close>, each returning the anomalies it appends.\<close>

definition amount_anomalies :: "pylib \<Rightarrow> json \<Rightarrow> pyerror + string list" where
  "amount_anomalies py d =
     and_then (py_in ''amount'' d) (\<lambda>present.
       if \<not> present then Inr []
       else (case and_then (py_getitem d ''amount'') (py_float py) of
               Inr amount \<Rightarrow>
                 Inr (if float_lt amount 0 then [''negative_amount'']
                      else if float_gt amount 100000 then [''unusually_high_amount'']
                      else [])
             | Inl e \<Rightarrow>
                 if e = ValueError \<or> e = TypeError then Inr [''invalid_amount_format'']
                 else Inl e))"

definition timestamp_anomalies :: "pylib \<Rightarrow> json \<Rightarrow> pyerror + string list" where
  "timestamp_anomalies py d =
     and_then (py_in ''timestamp'' d) (\<lambda>present.
       if \<not> present then Inr []
       else (case py_getitem d ''timestamp'' of
               Inl e \<Rightarrow> if e = ValueError then Inr [''malformed_timestamp''] else Inl e
             | Inr (JStr s) \<Rightarrow>
                 Inr (if fromisoformat_ok py (replace_char CHR ''Z'' ''+00:00'' s) then []
                      else [''malformed_timestamp''])
             | Inr (JInt n) \<Rightarrow>
                 Inr (if n < 0 \<or> n > 2147483647 then [''invalid_timestamp_range''] else [])
             | Inr (JBool b) \<Rightarrow> Inr []
             | Inr (JFloat f) \<Rightarrow>
                 Inr (if float_lt f 0 \<or> float_gt f 2147483647
                      then [''invalid_timestamp_range''] else [])
             | Inr v \<Rightarrow> Inr []))"

definition items_anomalies :: "json \<Rightarrow> string \<Rightarrow> pyerror + string list" where
  "items_anomalies d webhook_type =
     (if webhook_type = ''order'' then
        and_then (py_in ''items'' d) (\<lambda>present.
          if \<not> present then Inr []
          else and_then (py_getitem d ''items'') (\<lambda>v.
                 Inr (if v = JList [] then [''empty_items_array''] else [])))
      else Inr [])"

definition status_anomalies :: "pylib \<Rightarrow> json \<Rightarrow> pyerror + string list" where
  "status_anomalies py d =
     and_then (py_in ''status'' d) (\<lambda>present.
       if \<not> present then Inr []
       else and_then (py_getitem d ''status'') (\<lambda>v.
              Inr (if lower (py_str py v) \<in> set [''test'', ''debug'', ''fake'', ''dummy'']
                   then [''suspicious_status_value''] else [])))"

definition detect_anomalies :: "pylib \<Rightarrow> json \<Rightarrow> string \<Rightarrow> pyerror + string list" where
  "detect_anomalies py d webhook_type =
     and_then (amount_anomalies py d) (\<lambda>a1.
     and_then (timestamp_anomalies py d) (\<lambda>a2.
     and_then (items_anomalies d webhook_type) (\<lambda>a3.
     and_then (status_anomalies py d) (\<lambda>a4.
     Inr (a1 @ a2 @ a3 @ a4)))))"

fun extract_important :: "json \<Rightarrow> string list \<Rightarrow> pydict \<Rightarrow> pyerror + pydict" where
  "extract_important d [] extracted = Inr extracted"
| "extract_important d (field # names) extracted =
     and_then (py_in field d) (\<lambda>present.
       if present
       then and_then (py_getitem d field) (\<lambda>v.
              extract_important d names (AList.update field v extracted))
       else extract_important d names extracted)"

definition extract_fields :: "pylib \<Rightarrow> json \<Rightarrow> pyerror + pydict" where
  "extract_fields py d =
     and_then (extract_important d
                [''user_id'', ''customer_id'', ''transaction_id'', ''order_id'',
                 ''amount'', ''currency'', ''status'', ''timestamp'', ''event_type''] [])
       (\<lambda>extracted.
     and_then (py_in ''data'' d) (\<lambda>has_data.
     and_then (if has_data
               then and_then (py_getitem d ''data'') (\<lambda>v.
                 Inr (case v of
                        JDict kvs \<Rightarrow>
                          AList.update ''nested_data_keys'' (JList (map (JStr \<circ> fst) kvs)) extracted
                      | _ \<Rightarrow> extracted))
               else Inr extracted) (\<lambda>extracted.
     and_then (py_len d) (\<lambda>n.
     Inr (AList.update ''field_count'' (JInt (int n))
            (AList.update ''payload_size'' (JInt (int (length (py_str py d)))) extracted))))))"

definition recommend_actions :: "string list \<Rightarrow> bool \<Rightarrow> string list" where
  "recommend_actions anomalies schema_valid =
     (if \<not> schema_valid then [''log_schema_violation'', ''notify_integration_team''] else [])
     @ (if anomalies \<noteq> [] then
          (if \<exists>anomaly \<in> set anomalies.
                anomaly \<in> set [''negative_amount'', ''unusually_high_amount'']
           then [''flag_financial_review''] else [])
          @ (if ''malformed_timestamp'' \<in> set anomalies then [''log_data_quality_issue''] else [])
          @ (if length anomalies > 2 then [''quarantine_for_review''] else [])
        else [''process_normally''])"

record json_data =
  webhook_type :: string
  payload :: json
  schema_valid :: bool
  validation_errors :: "string list"
  anomalies :: "string list"
  extracted_fields :: pydict

record json_metadata =
  parsed_successfully :: bool
  field_count :: "nat option"
  parse_error :: "string option"
  confidence :: real

record json_result =
  agent :: string
  json_data :: json_data
  recommended_actions :: "string list"
  processing_metadata :: json_metadata

text \<open>
  \<open>JSONAgent.process\<close>. Only \<open>json.JSONDecodeError\<close> is caught; an exception of the steps
  after parsing leaves the function (\<open>Inl\<close>), and then no decision is logged.
\<close>

definition process ::
  "pylib \<Rightarrow> agent \<Rightarrow> string \<Rightarrow> ClassificationResult \<Rightarrow> string \<Rightarrow> string \<times> string \<Rightarrow> redis
     \<Rightarrow> (pyerror + json_result) \<times> redis" where
  "process py self input_data cls eid clock r =
     (case json_loads py input_data of
        Inr d \<Rightarrow>
          (let wtype = detect_webhook_type d in
           case and_then (validate_schema d wtype) (\<lambda>(valid, errors).
                and_then (detect_anomalies py d wtype) (\<lambda>anoms.
                and_then (extract_fields py d) (\<lambda>extracted.
                Inr \<lparr>agent = agent_name self,
                     json_data = \<lparr>webhook_type = wtype, payload = d, schema_valid = valid,
                                  validation_errors = errors, anomalies = anoms,
                                  extracted_fields = extracted\<rparr>,
                     recommended_actions = recommend_actions anoms valid,
                     processing_metadata =
                       \<lparr>parsed_successfully = True,
                        field_count = Some (case d of JDict kvs \<Rightarrow> length kvs | _ \<Rightarrow> 0),
                        parse_error = None,
                        confidence = confidence_score cls\<rparr>\<rparr>))) of
             Inl e \<Rightarrow> (Inl e, r)
           | Inr result \<Rightarrow>
               (Inr result,
                log_decision self eid
                  (''JSON processed - Type: '' @ wtype
                     @ '', Valid: '' @ str_of_bool (schema_valid (json_data result))
                     @ '', Anomalies: '' @ str_of_nat (length (anomalies (json_data result))))
                  clock r))
      | Inl msg \<Rightarrow>
          (Inr \<lparr>agent = agent_name self,
                json_data = \<lparr>webhook_type = ''invalid'', payload = JDict [], schema_valid = False,
                             validation_errors = [''JSON Parse Error: '' @ msg],
                             anomalies = [''malformed_json''], extracted_fields = []\<rparr>,
                recommended_actions = [''log_error'', ''alert_admin''],
                processing_metadata =
                  \<lparr>parsed_successfully = False, field_count = None,
                   parse_error = Some msg, confidence = 0\<rparr>\<rparr>,
           log_decision self eid (''JSON parsing failed: '' @ msg) clock r))"

definition JSONAgent :: agent where
  "JSONAgent = \<lparr>agent_name = ''JSONAgent'', agent_id = ''00000000-0000-4000-8000-000000000000''\<rparr>"

section \<open>Regular expressions (the part of Python's \<open>re\<close> the agents use)\<close>

text \<open>
  Character classes on ASCII text. \<open>\s\<close> is the whitespace of \<open>str.isspace\<close>, which is
  also what \<open>str.strip\<close> removes.
\<close>

definition is_digit :: "char \<Rightarrow> bool" where
  "is_digit c = (c \<in> set ''0123456789'')"

definition is_word :: "char \<Rightarrow> bool" where
  "is_word c =
     (c \<in> set ''abcdefghijklmnopqrstuvwxyzABCDEFGHIJKLMNOPQRSTUVWXYZ0123456789_'')"

definition is_space :: "char \<Rightarrow> bool" where
  "is_space c =
     (c \<in> set [CHR '' '', CHR 0x09, CHR 0x0A, CHR 0x0B, CHR 0x0C, CHR 0x0D,
                CHR 0x1C, CHR 0x1D, CHR 0x1E, CHR 0x1F])"

definition strip :: "string \<Rightarrow> string" where
  "strip s = rev (dropWhile is_space (rev (dropWhile is_space s)))"

text \<open>
  The syntax of patterns: the empty pattern, a character, a character class, sequence,
  alternative (\<open>|\<close>), greedy \<open>*\<close>, lazy \<open>*?\<close>, capture group number \<open>n\<close>, \<open>^\<close> and \<open>\b\<close>.
\<close>

datatype rx =
    Eps
  | Chr char
  | Cls "char \<Rightarrow> bool"
  | Seq rx rx
  | Alt rx rx
  | Star rx
  | LazyStar rx
  | Group nat rx
  | Bol
  | WordB

text \<open>Derived forms: literal text, a sequence of patterns, alternatives, \<open>+\<close>, \<open>+?\<close>, \<open>?\<close>, \<open>{n}\<close>.\<close>

definition seqs :: "rx list \<Rightarrow> rx" where
  "seqs rs = foldr Seq rs Eps"

definition lit :: "string \<Rightarrow> rx" where
  "lit s = seqs (map Chr s)"

fun alts :: "rx list \<Rightarrow> rx" where
  "alts [] = Eps"
| "alts [r] = r"
| "alts (r # rs) = Alt r (alts rs)"

definition plus :: "rx \<Rightarrow> rx" where
  "plus r = Seq r (Star r)"

definition lazy_plus :: "rx \<Rightarrow> rx" where
  "lazy_plus r = Seq r (LazyStar r)"

definition opt :: "rx \<Rightarrow> rx" where
  "opt r = Alt r Eps"

definition rep :: "nat \<Rightarrow> rx \<Rightarrow> rx" where
  "rep n r = seqs (replicate n r)"

text \<open>The text of the capture groups that took part in a match, latest first.\<close>

type_synonym caps = "(nat \<times> string) list"

text \<open>
  With \<open>re.IGNORECASE\<close> (\<open>ic\<close>) a character of the pattern matches both of its cases. The
  classes of the repository's patterns are closed under case.
\<close>

definition chr_eq :: "bool \<Rightarrow> char \<Rightarrow> char \<Rightarrow> bool" where
  "chr_eq ic c x = (if ic then lower_char x = lower_char c else x = c)"

definition word_before :: "char option \<Rightarrow> bool" where
  "word_before p = (case p of None \<Rightarrow> False | Some c \<Rightarrow> is_word c)"

definition word_after :: "string \<Rightarrow> bool" where
  "word_after s = (case s of [] \<Rightarrow> False | c # cs \<Rightarrow> is_word c)"

text \<open>
  The backtracking matcher. \<open>rx_match ic r prev s g\<close> matches \<open>r\<close> at the start of \<open>s\<close>, where
  \<open>prev\<close> is the character before \<open>s\<close> in the text (\<open>None\<close> at the start of the text) and \<open>g\<close>
  the groups captured so far. It returns every way to match, in the order in which
  backtracking tries them: the text consumed, the last character before the rest, the rest,
  and the groups. A repetition does not iterate on an empty match of its body.
\<close>

fun rx_match :: "bool \<Rightarrow> rx \<Rightarrow> char option \<Rightarrow> string \<Rightarrow> caps
    \<Rightarrow> (string \<times> char option \<times> string \<times> caps) list" where
  "rx_match ic Eps prev s g = [([], prev, s, g)]"
| "rx_match ic (Chr c) prev s g =
     (case s of
        [] \<Rightarrow> []
      | x # xs \<Rightarrow> if chr_eq ic c x then [([x], Some x, xs, g)] else [])"
| "rx_match ic (Cls P) prev s g =
     (case s of
        [] \<Rightarrow> []
      | x # xs \<Rightarrow> if P x then [([x], Some x, xs, g)] else [])"
| "rx_match ic (Seq r1 r2) prev s g =
     concat (map (\<lambda>(c1, p1, s1, g1).
                map (\<lambda>(c2, p2, s2, g2). (c1 @ c2, p2, s2, g2)) (rx_match ic r2 p1 s1 g1))
             (rx_match ic r1 prev s g))"
| "rx_match ic (Alt r1 r2) prev s g = rx_match ic r1 prev s g @ rx_match ic r2 prev s g"
| "rx_match ic (Star r) prev s g =
     concat (map (\<lambda>(c1, p1, s1, g1).
                if length s1 < length s
                then map (\<lambda>(c2, p2, s2, g2). (c1 @ c2, p2, s2, g2))
                       (rx_match ic (Star r) p1 s1 g1)
                else [])
             (rx_match ic r prev s g))
     @ [([], prev, s, g)]"
| "rx_match ic (LazyStar r) prev s g =
     ([], prev, s, g) #
     concat (map (\<lambda>(c1, p1, s1, g1).
                if length s1 < length s
                then map (\<lambda>(c2, p2, s2, g2). (c1 @ c2, p2, s2, g2))
                       (rx_match ic (LazyStar r) p1 s1 g1)
                else [])
             (rx_match ic r prev s g))"
| "rx_match ic (Group n r) prev s g =
     map (\<lambda>(c, p, s', g'). (c, p, s', (n, c) # g')) (rx_match ic r prev s g)"
| "rx_match ic Bol prev s g = (if prev = None then [([], prev, s, g)] else [])"
| "rx_match ic WordB prev s g =
     (if word_before prev \<noteq> word_after s then [([], prev, s, g)] else [])"

text \<open>
  \<open>re.search\<close>: the first way to match at the leftmost position that has one; the result is
  the matched text (group 0) and the groups.
\<close>

fun rx_search :: "bool \<Rightarrow> rx \<Rightarrow> char option \<Rightarrow> string \<Rightarrow> (string \<times> caps) option" where
  "rx_search ic r prev [] =
     (case rx_match ic r prev [] [] of
        [] \<Rightarrow> None
      | (c, p, s', g) # _ \<Rightarrow> Some (c, g))"
| "rx_search ic r prev (x # xs) =
     (case rx_match ic r prev (x # xs) [] of
        [] \<Rightarrow> rx_search ic r (Some x) xs
      | (c, p, s', g) # _ \<Rightarrow> Some (c, g))"

definition search :: "bool \<Rightarrow> rx \<Rightarrow> string \<Rightarrow> (string \<times> caps) option" where
  "search ic r s = rx_search ic r None s"

text \<open>
  \<open>re.findall\<close> and \<open>re.finditer\<close>: the matches from left to right, each search starting
  where the last match ended (\<open>skip\<close> counts the characters of the last match still to pass).
  After an empty match the next match at the same position must not be empty.
\<close>

fun rx_scan :: "bool \<Rightarrow> rx \<Rightarrow> char option \<Rightarrow> string \<Rightarrow> nat \<Rightarrow> (string \<times> caps) list" where
  "rx_scan ic r prev [] skip =
     (if skip = 0 then
        (case rx_match ic r prev [] [] of
           [] \<Rightarrow> []
         | (c, p, s', g) # _ \<Rightarrow> [(c, g)])
      else [])"
| "rx_scan ic r prev (x # xs) skip =
     (if skip = 0 then
        (case rx_match ic r prev (x # xs) [] of
           [] \<Rightarrow> rx_scan ic r (Some x) xs 0
         | (c, p, s', g) # ms \<Rightarrow>
             if c \<noteq> [] then (c, g) # rx_scan ic r (Some x) xs (length c - 1)
             else (case filter (\<lambda>(c', p', s'', g'). c' \<noteq> []) ms of
                     [] \<Rightarrow> (c, g) # rx_scan ic r (Some x) xs 0
                   | (c', p', s'', g') # _ \<Rightarrow>
                       (c, g) # (c', g') # rx_scan ic r (Some x) xs (length c' - 1)))
      else rx_scan ic r (Some x) xs (skip - 1))"

definition findall :: "bool \<Rightarrow> rx \<Rightarrow> string \<Rightarrow> (string \<times> caps) list" where
  "findall ic r s = rx_scan ic r None s 0"

section \<open>Classifier (agents/classifier_agent.py)\<close>

text \<open>
  The functions of \<open>ClassifierAgent\<close> that decide the format, the intent and the confidence.
  \<open>process\<close> calls them in this order and stores
  \<open>_calculate_confidence(input_data, _detect_format(input_data), _detect_intent(input_data))\<close>
  as the \<open>confidence_score\<close> of its result.
\<close>

definition format_patterns :: "(FormatType \<times> rx list) list" where
  \<open>format_patterns =
     [(EMAIL, [lit ''subject:'', lit ''from:'', lit ''to:'',
               seqs [Chr CHR ''@'', plus (Cls is_word), Chr CHR ''.'', plus (Cls is_word)],
               lit ''dear'', lit ''regards'', lit ''sincerely'']),
      (JSON, [seqs [Bol, Star (Cls is_space), Chr CHR ''{''],
              seqs [Chr CHR '':'', Star (Cls is_space), Cls (\<lambda>c. c \<in> set ''"[{'')],
              seqs [lit ''":'', Star (Cls is_space), plus (Cls is_digit)],
              lit ''webhook'', lit ''payload'', lit ''data'']),
      (PDF, [lit ''%PDF'', lit ''invoice'', lit ''total:'', lit ''amount:'',
             lit ''policy'', lit ''regulation'', lit ''compliance''])]\<close>

definition intent_keywords :: "(BusinessIntent \<times> string list) list" where
  "intent_keywords =
     [(RFQ, [''request for quote'', ''rfq'', ''quotation'', ''bid'',
             ''proposal'', ''pricing'', ''estimate'']),
      (COMPLAINT, [''complaint'', ''dissatisfied'', ''problem'', ''issue'',
                   ''unhappy'', ''angry'', ''disappointed'', ''terrible'']),
      (INVOICE, [''invoice'', ''bill'', ''payment'', ''amount due'',
                 ''total:'', ''line item'', ''tax'', ''subtotal'']),
      (REGULATION, [''gdpr'', ''compliance'', ''regulation'', ''policy'',
                    ''fda'', ''sox'', ''hipaa'', ''regulatory'']),
      (FRAUD_RISK, [''suspicious'', ''fraud'', ''anomaly'', ''unusual'',
                    ''security'', ''breach'', ''unauthorized'', ''alert''])]"

text \<open>The inner loop of \<open>_detect_format\<close>: the number of matches of all patterns of a format.\<close>

fun format_score :: "rx list \<Rightarrow> string \<Rightarrow> nat" where
  "format_score [] input_data = 0"
| "format_score (pattern # patterns) input_data =
     length (findall True pattern input_data) + format_score patterns input_data"

text \<open>\<open>max(scores, key=scores.get)\<close>: the first key, in insertion order, with the largest value.\<close>

fun max_loop :: "'k \<times> nat \<Rightarrow> ('k \<times> nat) list \<Rightarrow> 'k \<times> nat" where
  "max_loop best [] = best"
| "max_loop best (kv # kvs) = max_loop (if snd kv > snd best then kv else best) kvs"

definition max_key :: "('k \<times> nat) list \<Rightarrow> ('k \<times> nat) option" where
  "max_key scores = (case scores of [] \<Rightarrow> None | kv # kvs \<Rightarrow> Some (max_loop kv kvs))"

definition format_scores :: "string \<Rightarrow> (FormatType \<times> nat) list" where
  "format_scores input_data =
     map (\<lambda>(fmt, patterns). (fmt, format_score patterns input_data))
       format_patterns"

definition format_fallback :: "string \<Rightarrow> FormatType" where
  "format_fallback input_data =
     (if starts_with (strip input_data) ''{'' then JSON
      else if contains input_data ''@''
              \<and> (contains (lower input_data) ''subject:'' \<or> contains (lower input_data) ''from:'')
        then EMAIL
      else PDF)"

definition detect_format :: "string \<Rightarrow> FormatType" where
  "detect_format input_data =
     (case max_key (format_scores input_data) of
        Some (best_format, score) \<Rightarrow>
          if score > 0 then best_format else format_fallback input_data
      | None \<Rightarrow> format_fallback input_data)"

text \<open>The inner loop of \<open>_detect_intent\<close> (and the second loop of \<open>_calculate_confidence\<close>).\<close>

fun keyword_score :: "string list \<Rightarrow> string \<Rightarrow> nat" where
  "keyword_score [] input_data = 0"
| "keyword_score (keyword # keywords) input_data =
     (if contains (lower input_data) (lower keyword) then 1 else 0)
       + keyword_score keywords input_data"

definition detect_intent :: "string \<Rightarrow> BusinessIntent" where
  "detect_intent input_data =
     (case max_key (map (\<lambda>(intent, keywords). (intent, keyword_score keywords input_data))
                      intent_keywords) of
        Some (best_intent, score) \<Rightarrow> if score > 0 then best_intent else UNKNOWN
      | None \<Rightarrow> UNKNOWN)"

text \<open>The first loop of \<open>_calculate_confidence\<close>.\<close>

fun pattern_matches :: "rx list \<Rightarrow> string \<Rightarrow> nat" where
  "pattern_matches [] input_data = 0"
| "pattern_matches (pattern # patterns) input_data =
     (if search True pattern input_data \<noteq> None then 1 else 0)
       + pattern_matches patterns input_data"

text \<open>\<open>d.get(k, [])\<close> on the two tables.\<close>

definition get_or_empty :: "('k \<times> 'v list) list \<Rightarrow> 'k \<Rightarrow> 'v list" where
  "get_or_empty table k = (case map_of table k of Some v \<Rightarrow> v | None \<Rightarrow> [])"

definition calculate_confidence :: "string \<Rightarrow> FormatType \<Rightarrow> BusinessIntent \<Rightarrow> real" where
  "calculate_confidence input_data fmt intent =
     (let format_matches = pattern_matches (get_or_empty format_patterns fmt) input_data;
          intent_matches = keyword_score (get_or_empty intent_keywords intent) input_data;
          total_format_patterns = length (get_or_empty format_patterns fmt);
          total_intent_keywords = length (get_or_empty intent_keywords intent);
          format_confidence = real format_matches / real (max total_format_patterns 1);
          intent_confidence = real intent_matches / real (max total_intent_keywords 1)
      in (format_confidence + intent_confidence) / 2)"

section \<open>Email agent (agents/email_agent.py)\<close>







section \<open>PDF agent (agents/pdf_agent.py)\<close>

definition compliance_keywords :: "string list" where
  "compliance_keywords =
     [''gdpr'', ''fda'', ''sox'', ''hipaa'', ''pci'', ''compliance'',
      ''regulation'', ''policy'', ''audit'', ''security'']"

text \<open>The amount \<open>\d+(?:,\d{3})*(?:\.\d{2})?\<close>, which three patterns capture.\<close>

definition amount_rx :: rx where
  "amount_rx =
     seqs [plus (Cls is_digit),
           Star (seqs [Chr CHR '','', rep 3 (Cls is_digit)]),
           opt (seqs [Chr CHR ''.'', rep 2 (Cls is_digit)])]"

definition colon_or_space :: "char \<Rightarrow> bool" where
  "colon_or_space c = (c = CHR '':'' \<or> is_space c)"

text \<open>
  \<open>invoice_patterns["total"]\<close>. The other entries of \<open>invoice_patterns\<close> are read by
  \<open>_extract_general_fields\<close> only.
\<close>

definition total_pattern :: rx where
  "total_pattern =
     seqs [lit ''total'', plus (Cls colon_or_space), opt (Chr CHR ''$''), Group 1 amount_rx]"

definition amount_due_pattern :: rx where
  "amount_due_pattern =
     seqs [lit ''amount due'', plus (Cls colon_or_space), opt (Chr CHR ''$''), Group 1 amount_rx]"

definition total_patterns :: "rx list" where
  "total_patterns = [total_pattern, amount_due_pattern]"

text \<open>\<open>(\d+)\s+(.+?)\s+\$?(\d+(?:,\d{3})*(?:\.\d{2})?)\<close>; \<open>.\<close> is any character but a newline.\<close>

definition line_pattern :: rx where
  "line_pattern =
     seqs [Group 1 (plus (Cls is_digit)), plus (Cls is_space),
           Group 2 (lazy_plus (Cls (\<lambda>c. c \<noteq> CHR 0x0A))), plus (Cls is_space),
           opt (Chr CHR ''$''), Group 3 amount_rx]"

definition ssn_pattern :: rx where
  "ssn_pattern =
     seqs [WordB, rep 3 (Cls is_digit), Chr CHR ''-'', rep 2 (Cls is_digit), Chr CHR ''-'',
           rep 4 (Cls is_digit), WordB]"

definition dash_or_blank :: "char \<Rightarrow> bool" where
  "dash_or_blank c = (c = CHR ''-'' \<or> c = CHR '' '')"

definition credit_card_pattern :: rx where
  "credit_card_pattern =
     seqs [WordB, rep 4 (Cls is_digit), opt (Cls dash_or_blank),
           rep 4 (Cls is_digit), opt (Cls dash_or_blank),
           rep 4 (Cls is_digit), opt (Cls dash_or_blank),
           rep 4 (Cls is_digit), WordB]"

definition urgent_pattern :: rx where
  "urgent_pattern = alts [lit ''urgent'', lit ''asap'', lit ''immediate'', lit ''critical'']"

definition determine_document_type :: "string \<Rightarrow> string" where
  "determine_document_type text =
     (let text_lower = lower text in
      if \<exists>keyword \<in> set [''invoice'', ''bill'', ''payment'', ''amount due''].
           contains text_lower keyword
        then ''invoice''
      else if \<exists>keyword \<in> set [''policy'', ''regulation'', ''compliance'', ''gdpr'', ''fda''].
           contains text_lower keyword
        then ''policy''
      else if \<exists>keyword \<in> set [''contract'', ''agreement'', ''terms'']. contains text_lower keyword
        then ''contract''
      else if \<exists>keyword \<in> set [''report'', ''analysis'', ''summary'']. contains text_lower keyword
        then ''report''
      else ''document'')"

text \<open>
  The first loop of \<open>_extract_invoice_data\<close>. \<open>match.group(1)\<close> of a group that took no part
  in the match is \<open>None\<close>, on which \<open>replace\<close> raises \<open>AttributeError\<close>; a \<open>ValueError\<close> of
  \<open>float\<close> is caught and the next pattern tried.
\<close>

fun extract_total :: "pylib \<Rightarrow> rx list \<Rightarrow> string \<Rightarrow> pyerror + pyfloat option" where
  "extract_total py [] text = Inr None"
| "extract_total py (pattern # patterns) text =
     (case search True pattern text of
        None \<Rightarrow> extract_total py patterns text
      | Some (m, groups) \<Rightarrow>
          (case map_of groups 1 of
             None \<Rightarrow> Inl AttributeError
           | Some group1 \<Rightarrow>
               (case float_of_str py (replace_char CHR '','' [] group1) of
                  Some total_amt \<Rightarrow> Inr (Some total_amt)
                | None \<Rightarrow> extract_total py patterns text)))"

record line_item =
  quantity :: int
  description :: string
  amount :: pyfloat

text \<open>
  The second loop of \<open>_extract_invoice_data\<close>, over the tuples of \<open>re.findall\<close>, in which a
  group that took no part in the match is the empty string. A \<open>ValueError\<close> of \<open>int\<close> or
  \<open>float\<close> skips the match.
\<close>

definition group_text :: "caps \<Rightarrow> nat \<Rightarrow> string" where
  "group_text groups n = (case map_of groups n of Some t \<Rightarrow> t | None \<Rightarrow> [])"

fun line_items_of :: "pylib \<Rightarrow> (string \<times> caps) list \<Rightarrow> line_item list" where
  "line_items_of py [] = []"
| "line_items_of py ((m, groups) # matches) =
     (case int_of_str py (group_text groups 1) of
        None \<Rightarrow> line_items_of py matches
      | Some q \<Rightarrow>
          (case float_of_str py (replace_char CHR '','' [] (group_text groups 3)) of
             None \<Rightarrow> line_items_of py matches
           | Some a \<Rightarrow>
               \<lparr>quantity = q, description = strip (group_text groups 2), amount = a\<rparr>
                 # line_items_of py matches))"

definition extract_invoice_data ::
  "pylib \<Rightarrow> string \<Rightarrow> pyerror + line_item list \<times> pyfloat option" where
  "extract_invoice_data py text =
     and_then (extract_total py total_patterns text) (\<lambda>total_amt.
     Inr (line_items_of py (findall False line_pattern text), total_amt))"

text \<open>\<open>BaseAgent.extract_keywords\<close>.\<close>

definition extract_keywords :: "string \<Rightarrow> string list \<Rightarrow> string list" where
  "extract_keywords text keywords =
     filter (\<lambda>keyword. contains (lower text) (lower keyword)) keywords"

text \<open>The truth value of a float: zero is false, everything else (NaN too) is true.\<close>

fun float_truthy :: "pyfloat \<Rightarrow> bool" where
  "float_truthy (FFinite x) = (x \<noteq> 0)"
| "float_truthy f = True"

definition check_compliance_flags :: "string \<Rightarrow> string \<Rightarrow> pyfloat option \<Rightarrow> string list" where
  "check_compliance_flags text doc_type total_amt =
     (let text_lower = lower text;
          found_compliance = extract_keywords text compliance_keywords
      in (if doc_type = ''invoice''
             \<and> (case total_amt of None \<Rightarrow> False | Some t \<Rightarrow> float_truthy t \<and> float_gt t 10000)
          then [''high_value_invoice''] else [])
       @ (if found_compliance \<noteq> []
          then ''compliance_document'' # map (\<lambda>keyword. ''contains_'' @ lower keyword) found_compliance
          else [])
       @ (if contains text_lower ''gdpr'' then [''gdpr_related''] else [])
       @ (if contains text_lower ''fda'' then [''fda_related''] else [])
       @ (if contains text_lower ''sox'' then [''sox_compliance''] else [])
       @ (if search False ssn_pattern text \<noteq> None then [''contains_ssn''] else [])
       @ (if search False credit_card_pattern text \<noteq> None then [''contains_credit_card''] else [])
       @ (if search False urgent_pattern text_lower \<noteq> None then [''urgent_document''] else []))"

text \<open>
  The first three steps of \<open>PDFAgent.process\<close>: the document type, the invoice data of an
  invoice, and the flags. The steps after them (general fields, recommended actions, the
  result dict, the log entry) read these values and do not change them.
\<close>

record pdf_data =
  document_type :: string
  line_items :: "line_item list"
  total_amount :: "pyfloat option"
  flags :: "string list"

definition process_pdf :: "pylib \<Rightarrow> string \<Rightarrow> pyerror + pdf_data" where
  "process_pdf py extracted_text =
     (let doc_type = determine_document_type extracted_text in
      and_then (if doc_type = ''invoice'' then extract_invoice_data py extracted_text
                else Inr ([], None)) (\<lambda>(items, total_amt).
      Inr \<lparr>document_type = doc_type, line_items = items, total_amount = total_amt,
           flags = check_compliance_flags extracted_text doc_type total_amt\<rparr>))"

text \<open>
  In the words of the specification: the value of the captured, comma-stripped amount of
  the leftmost match of a pattern, when the pattern matches and the amount parses as a
  float.
\<close>

definition parsed_amount :: "pylib \<Rightarrow> rx \<Rightarrow> string \<Rightarrow> pyfloat option" where
  "parsed_amount py pattern text =
     (case search True pattern text of
        None \<Rightarrow> None
      | Some (m, groups) \<Rightarrow>
          (case map_of groups 1 of
             None \<Rightarrow> None
           | Some group1 \<Rightarrow> float_of_str py (replace_char CHR '','' [] group1)))"

section \<open>Inputs of the examples\<close>

text \<open>
  A handler that always raises an \<open>Exception\<close>, one that is cancelled (it raises
  \<open>asyncio.CancelledError\<close>, which is not an \<open>Exception\<close>), and one that counts its
  invocations in the world.
\<close>

definition raising_handler :: "'w handler" where
  "raising_handler context eid w = (Inl (Exc ''connection refused''), w)"

definition cancelled_handler :: "'w handler" where
  "cancelled_handler context eid w = (Inl (BaseExc ''task cancelled''), w)"

definition counting_handler :: "nat handler" where
  "counting_handler context eid n =
     (Inr [(''status'', if n = 0 then ''first call'' else ''later call'')], Suc n)"

text \<open>
  The library functions on the inputs of the examples, as CPython answers them. An input
  outside the tables gets a placeholder answer; no example depends on one.
\<close>

definition payment_text :: string where
  \<open>payment_text = ''{"transaction_id":"t1","amount":50,"currency":"USD","status":"ok"}''\<close>

definition payment_payload :: json where
  "payment_payload =
     JDict [(''transaction_id'', JStr ''t1''), (''amount'', JInt 50),
            (''currency'', JStr ''USD''), (''status'', JStr ''ok'')]"

definition review_text :: string where
  \<open>review_text = ''{"amount": -5, "timestamp": "yesterday"}''\<close>

definition review_payload :: json where
  "review_payload = JDict [(''amount'', JInt (- 5)), (''timestamp'', JStr ''yesterday'')]"

definition example_lib :: pylib where
  \<open>example_lib =
     \<lparr>json_loads = (\<lambda>s.
        case map_of
          [(payment_text, Inr payment_payload),
           (review_text, Inr review_payload),
           (''5'', Inr (JInt 5)),
           (''{"timestamp": -1}'', Inr (JDict [(''timestamp'', JInt (- 1))])),
           (''{not json'',
              Inl ''Expecting property name enclosed in double quotes: line 1 column 2 (char 1)'')]
          s of
          Some v \<Rightarrow> v
        | None \<Rightarrow> Inl ''input outside the table''),
      float_of_str = map_of [(''12500.00'', FFinite 12500), (''5'', FFinite 5)],
      int_of_str = map_of [(''5'', 5)],
      fromisoformat_ok = (\<lambda>s. False),
      repr = (\<lambda>v.
        if v = payment_payload
          then ''{'transaction_id': 't1', 'amount': 50, 'currency': 'USD', 'status': 'ok'}''
        else if v = review_payload then ''{'amount': -5, 'timestamp': 'yesterday'}''
        else if v = JDict [(''timestamp'', JInt (- 1))] then ''{'timestamp': -1}''
        else if v = JInt 5 then ''5''
        else [])\<rparr>\<close>

definition example_classification :: ClassificationResult where
  "example_classification =
     \<lparr>format_type = JSON, business_intent = UNKNOWN, confidence_score = 1 / 4, metadata = []\<rparr>"

definition example_clock :: "string \<times> string" where
  "example_clock = (''2024-01-01T00:00:00.000001'', ''2024-01-01T00:00:00.000002'')"

definition invoice_note :: string where
  "invoice_note = ''Invoice total: $5''"



definition invoice_text :: string where
  "invoice_text = ''Invoice Total: $12,500.00 due on receipt''"

definition subtotal_text :: string where
  "subtotal_text = ''Invoice Subtotal: 5 Total: $12,500.00''"

section \<open>Properties of the store\<close>

lemma queue_store_entry:
  "processing_queue (snd (store_entry e r)) = entry_id e # processing_queue r"
  by (simp add: store_entry_def lpush_def hset_def)

lemma queue_store_entries:
  "processing_queue (store_entries es r) = rev (map entry_id es) @ processing_queue r"
  by (induction es arbitrary: r) (simp_all add: queue_store_entry)

text \<open>
  C6 (as stated, refuted): after storing entry \<open>a\<close> and then entry \<open>b\<close> the queue is read as
  \<open>[b, a]\<close>, so the first id returned is the most recent one, not the earliest.
\<close>

theorem queue_not_fifo_counterexample:
  "get_processing_queue (store_entries [mk_entry ''a'', mk_entry ''b''] redis_empty) = [''b'', ''a'']
   \<and> hd (get_processing_queue (store_entries [mk_entry ''a'', mk_entry ''b''] redis_empty)) \<noteq> entry_id (mk_entry ''a'')"
  unfolding get_processing_queue_def queue_store_entries
  by (simp add: redis_empty_def mk_entry_def)

text \<open>
  C6 (amended): after any sequence of \<open>store_entry\<close> calls on an empty store,
  \<open>get_processing_queue\<close> returns the ids in reverse insertion order (most recent first,
  earliest last), and each id appears once per call that stored it.
\<close>

theorem queue_reverse_insertion_order:
  "get_processing_queue (store_entries es redis_empty) = rev (map entry_id es)
   \<and> count_list (get_processing_queue (store_entries es redis_empty)) i
       = count_list (map entry_id es) i"
proof -
  have q: "get_processing_queue (store_entries es redis_empty) = rev (map entry_id es)"
    by (simp add: get_processing_queue_def queue_store_entries redis_empty_def)
  have "count_list (rev xs) i = count_list xs i" for xs :: "string list"
    by (induction xs) simp_all
  with q show ?thesis by simp
qed

theorem queue_reverse_insertion_order_witness:
  "get_processing_queue (store_entries [mk_entry ''a'', mk_entry ''b'', mk_entry ''a''] redis_empty)
     = [''a'', ''b'', ''a'']
   \<and> count_list (get_processing_queue
        (store_entries [mk_entry ''a'', mk_entry ''b'', mk_entry ''a''] redis_empty)) ''a'' = 2"
  using queue_reverse_insertion_order [of "[mk_entry ''a'', mk_entry ''b'', mk_entry ''a'']" "''a''"]
  by (simp add: mk_entry_def)

section \<open>Properties of the action router\<close>

lemma route_step_other:
  "a \<noteq> x \<Longrightarrow> map_of (fst (snd (route_step H c e x st))) a = map_of (fst st) a"
  by (cases st)
     (auto simp: route_step_def update_conv'
           split: option.splits prod.splits sum.splits raised.splits)

lemma route_step_this:
  "fst (route_step H c e a st) = None \<Longrightarrow>
   map_of (fst (snd (route_step H c e a st))) a =
     Some (case H a of
             None \<Rightarrow> unknown_action a
           | Some h \<Rightarrow> (case fst (h c e (snd (snd st))) of
                          Inr res \<Rightarrow> res
                        | Inl x \<Rightarrow> handler_error (message x)))"
  by (cases st)
     (auto simp: route_step_def update_conv'
           split: option.splits prod.splits sum.splits raised.splits)

lemma route_step_keys:
  "fst (route_step H c e a st) = None \<Longrightarrow>
   fst ` set (fst (snd (route_step H c e a st))) = insert a (fst ` set (fst st))"
  by (cases st)
     (auto simp: route_step_def dom_update
           split: option.splits prod.splits sum.splits raised.splits)

lemma route_step_distinct:
  "distinct (map fst (fst st)) \<Longrightarrow> distinct (map fst (fst (snd (route_step H c e a st))))"
  by (cases st)
     (auto simp: route_step_def distinct_update
           split: option.splits prod.splits sum.splits raised.splits)

lemma route_step_world:
  "snd (snd (snd (route_step H c e a st))) =
     (case H a of None \<Rightarrow> snd (snd st) | Some h \<Rightarrow> snd (h c e (snd (snd st))))"
  by (cases st)
     (auto simp: route_step_def split: option.splits prod.splits sum.splits raised.splits)

lemma route_step_no_base:
  assumes "\<And>a h w n. H a = Some h \<Longrightarrow> fst (h c e w) \<noteq> Inl (BaseExc n)"
  shows "fst (route_step H c e a st) = None"
proof (cases st)
  case (fields results r w)
  show ?thesis
  proof (cases "H a")
    case None
    with fields show ?thesis by (simp add: route_step_def)
  next
    case (Some h)
    from assms [OF Some, of w] Some fields show ?thesis
      by (cases "h c e w")
         (auto simp: route_step_def split: sum.splits raised.splits)
  qed
qed

lemma route_loop_Cons:
  "route_loop H c e (x # xs) st =
     (if fst (route_step H c e x st) = None
      then route_loop H c e xs (snd (route_step H c e x st))
      else route_step H c e x st)"
  by (cases "route_step H c e x st"; cases "fst (route_step H c e x st)") auto

lemma route_loop_append:
  "route_loop H c e (xs @ ys) st =
     (if fst (route_loop H c e xs st) = None
      then route_loop H c e ys (snd (route_loop H c e xs st))
      else route_loop H c e xs st)"
proof (induction xs arbitrary: st)
  case Nil
  show ?case by simp
next
  case (Cons x xs)
  show ?case
  proof (cases "fst (route_step H c e x st) = None")
    case True
    then show ?thesis
      by (simp add: route_loop_Cons Cons.IH del: route_loop.simps(2))
  next
    case False
    then obtain y where y: "fst (route_step H c e x st) = Some y" by blast
    have "route_loop H c e (x # xs @ ys) st = route_step H c e x st"
      "route_loop H c e (x # xs) st = route_step H c e x st"
      by (simp_all add: route_loop_Cons y del: route_loop.simps(2))
    with y show ?thesis by simp
  qed
qed

lemma route_loop_prefix:
  "fst (route_loop H c e (xs @ ys) st) = None \<Longrightarrow> fst (route_loop H c e xs st) = None"
  by (simp add: route_loop_append split: if_splits)

lemma route_loop_other:
  "a \<notin> set xs \<Longrightarrow> map_of (fst (snd (route_loop H c e xs st))) a = map_of (fst st) a"
  by (induction xs arbitrary: st)
     (simp_all add: route_loop_Cons route_step_other del: route_loop.simps(2))

lemma route_loop_keys:
  "fst (route_loop H c e xs st) = None \<Longrightarrow>
   fst ` set (fst (snd (route_loop H c e xs st))) = set xs \<union> fst ` set (fst st)"
proof (induction xs arbitrary: st)
  case Nil
  then show ?case by simp
next
  case (Cons x xs)
  from Cons.prems have ok: "fst (route_step H c e x st) = None"
    by (simp add: route_loop_Cons del: route_loop.simps(2) split: if_splits)
  with Cons.prems have "fst (route_loop H c e xs (snd (route_step H c e x st))) = None"
    by (simp add: route_loop_Cons del: route_loop.simps(2))
  then have "fst ` set (fst (snd (route_loop H c e xs (snd (route_step H c e x st)))))
      = set xs \<union> fst ` set (fst (snd (route_step H c e x st)))"
    by (rule Cons.IH)
  with ok show ?case
    by (simp add: route_loop_Cons route_step_keys del: route_loop.simps(2))
qed

lemma route_loop_distinct:
  "distinct (map fst (fst st)) \<Longrightarrow> distinct (map fst (fst (snd (route_loop H c e xs st))))"
  by (induction xs arbitrary: st)
     (simp_all add: route_loop_Cons route_step_distinct del: route_loop.simps(2))

lemma route_loop_world:
  "fst (route_loop H c e xs st) = None \<Longrightarrow>
   snd (snd (snd (route_loop H c e xs st))) =
     fold (\<lambda>a w. case H a of None \<Rightarrow> w | Some h \<Rightarrow> snd (h c e w)) xs (snd (snd st))"
proof (induction xs arbitrary: st)
  case Nil
  then show ?case by simp
next
  case (Cons x xs)
  from Cons.prems have ok: "fst (route_step H c e x st) = None"
    by (simp add: route_loop_Cons del: route_loop.simps(2) split: if_splits)
  with Cons.prems have "fst (route_loop H c e xs (snd (route_step H c e x st))) = None"
    by (simp add: route_loop_Cons del: route_loop.simps(2))
  then have "snd (snd (snd (route_loop H c e xs (snd (route_step H c e x st))))) =
     fold (\<lambda>a w. case H a of None \<Rightarrow> w | Some h \<Rightarrow> snd (h c e w)) xs
       (snd (snd (snd (route_step H c e x st))))"
    by (rule Cons.IH)
  with ok show ?case
    by (simp add: route_loop_Cons route_step_world del: route_loop.simps(2))
qed

lemma route_loop_no_base:
  assumes "\<And>a h w n. H a = Some h \<Longrightarrow> fst (h c e w) \<noteq> Inl (BaseExc n)"
  shows "fst (route_loop H c e xs st) = None"
proof -
  have step: "fst (route_step H c e a st') = None" for a st'
    using assms by (rule route_step_no_base)
  show ?thesis
    by (induction xs arbitrary: st)
       (simp_all add: route_loop_Cons step del: route_loop.simps(2))
qed

lemma route_loop_last_occurrence:
  assumes "a \<notin> set post" and "fst (route_loop H c e (pre @ a # post) st) = None"
  shows "map_of (fst (snd (route_loop H c e (pre @ a # post) st))) a =
     Some (case H a of
             None \<Rightarrow> unknown_action a
           | Some h \<Rightarrow> (case fst (h c e (snd (snd (snd (route_loop H c e pre st))))) of
                          Inr res \<Rightarrow> res
                        | Inl x \<Rightarrow> handler_error (message x)))"
proof -
  let ?s1 = "snd (route_loop H c e pre st)"
  let ?s2 = "snd (route_step H c e a ?s1)"
  from assms(2) have p: "fst (route_loop H c e pre st) = None"
    by (rule route_loop_prefix)
  with assms(2) have rest: "fst (route_loop H c e (a # post) ?s1) = None"
    by (simp add: route_loop_append del: route_loop.simps(2))
  then have ok: "fst (route_step H c e a ?s1) = None"
    by (simp add: route_loop_Cons del: route_loop.simps(2) split: if_splits)
  have "route_loop H c e (pre @ a # post) st = route_loop H c e post ?s2"
    using p ok by (simp add: route_loop_append route_loop_Cons del: route_loop.simps(2))
  then have "map_of (fst (snd (route_loop H c e (pre @ a # post) st))) a
               = map_of (fst ?s2) a"
    using assms(1) by (simp add: route_loop_other)
  also have "\<dots> = Some (case H a of
             None \<Rightarrow> unknown_action a
           | Some h \<Rightarrow> (case fst (h c e (snd (snd ?s1))) of
                          Inr res \<Rightarrow> res
                        | Inl x \<Rightarrow> handler_error (message x)))"
    using ok by (rule route_step_this)
  finally show ?thesis .
qed

lemma route_actions_returns:
  "fst (route_actions H acts c e rw) = Inr results \<longleftrightarrow>
     fst (route_loop H c e acts ([], rw)) = None
     \<and> fst (snd (route_loop H c e acts ([], rw))) = results"
  by (cases "route_loop H c e acts ([], rw)"; cases "fst (route_loop H c e acts ([], rw))")
     (auto simp: route_actions_def)

lemma route_actions_world:
  "snd (snd (route_actions H acts c e rw)) = snd (snd (snd (route_loop H c e acts ([], rw))))"
  by (cases "route_loop H c e acts ([], rw)"; cases "fst (route_loop H c e acts ([], rw))")
     (auto simp: route_actions_def)

lemma one_entry_per_key:
  "distinct (map fst xs) \<Longrightarrow> k \<in> fst ` set xs \<Longrightarrow> length (filter (\<lambda>p. fst p = k) xs) = 1"
proof (induction xs)
  case Nil
  then show ?case by simp
next
  case (Cons p xs)
  show ?case
  proof (cases "fst p = k")
    case True
    with Cons.prems have "k \<notin> fst ` set xs" by auto
    then have "filter (\<lambda>p. fst p = k) xs = []" by (auto simp: filter_empty_conv)
    with True show ?thesis by simp
  next
    case False
    with Cons show ?thesis by auto
  qed
qed

lemma route_loop_raises:
  assumes "fst (route_loop H c e pre st) = None"
    and "H a = Some h"
    and "h c e (snd (snd (snd (route_loop H c e pre st)))) = (Inl (BaseExc n), w')"
  shows "fst (route_loop H c e (pre @ a # post) st) = Some (BaseExc n)
     \<and> snd (snd (snd (route_loop H c e (pre @ a # post) st))) = w'"
proof -
  obtain results r w where s1: "snd (route_loop H c e pre st) = (results, r, w)"
    by (cases "snd (route_loop H c e pre st)")
  with assms(2,3) have step:
    "route_step H c e a (snd (route_loop H c e pre st)) = (Some (BaseExc n), results, r, w')"
    by (simp add: route_step_def)
  have "route_loop H c e (pre @ a # post) st
          = route_loop H c e (a # post) (snd (route_loop H c e pre st))"
    using assms(1) by (simp add: route_loop_append del: route_loop.simps(2))
  also have "\<dots> = (Some (BaseExc n), results, r, w')"
    using step by (simp add: route_loop_Cons del: route_loop.simps(2))
  finally show ?thesis by simp
qed

lemma registered_handlers_no_base:
  "(action_handlers(''sync_ledger'' \<mapsto> raising_handler)) b = Some h
     \<Longrightarrow> fst (h c e w) \<noteq> Inl (BaseExc n)"
  by (auto simp: action_handlers_def simulated_def raising_handler_def split: if_splits)

text \<open>
  C7 (as stated, refuted): a handler that is cancelled raises \<open>asyncio.CancelledError\<close>, which
  \<open>except Exception\<close> does not catch: \<open>route_actions\<close> raises it, returns no mapping, and the
  handler of the next action in the batch is never run (the count stays 0).
\<close>

theorem cancelled_handler_propagates_counterexample:
  "route_actions [''sync_ledger'' \<mapsto> cancelled_handler, ''tally'' \<mapsto> counting_handler]
       [''sync_ledger'', ''tally''] [] ''e1'' (redis_empty, 0)
     = (Inl (BaseExc ''task cancelled''), redis_empty, 0)"
  by (simp add: route_actions_def route_step_def cancelled_handler_def)

text \<open>
  C7 (amended): when the handlers raise nothing but instances of \<open>Exception\<close>,
  \<open>route_actions\<close> does not raise and returns a mapping, and for the last occurrence \<open>a\<close> of
  an action in the list \<open>pre @ a # post\<close> the mapping holds at \<open>a\<close>: the \<open>unknown_action\<close>
  outcome when no handler is registered for \<open>a\<close>, the \<open>error\<close> outcome with the message when
  the handler raises, and the handler's own result otherwise. The handler is run on the
  world as the actions of \<open>pre\<close> left it, in listed order, whatever their handlers did: a
  handler of \<open>pre\<close> that raised an \<open>Exception\<close> does not keep \<open>a\<close> from being processed. An
  exception of a handler that is not an instance of \<open>Exception\<close> is not caught: when the
  actions of \<open>pre\<close> are processed and the handler of \<open>a\<close> then raises one, \<open>route_actions\<close>
  raises it, with the world as that handler left it.
\<close>

theorem route_actions_outcome_per_action:
  "((\<forall>b h w' n. H b = Some h \<longrightarrow> fst (h c e w') \<noteq> Inl (BaseExc n)) \<and> a \<notin> set post \<longrightarrow>
      (\<exists>results. fst (route_actions H (pre @ a # post) c e (r, w)) = Inr results
         \<and> map_of results a =
             Some (case H a of
                     None \<Rightarrow> unknown_action a
                   | Some h \<Rightarrow>
                       (case fst (h c e (snd (snd (route_actions H pre c e (r, w))))) of
                          Inr res \<Rightarrow> res
                        | Inl x \<Rightarrow> handler_error (message x)))))
   \<and> ((\<exists>results. fst (route_actions H pre c e (r, w)) = Inr results)
        \<and> H a = Some h
        \<and> h c e (snd (snd (route_actions H pre c e (r, w)))) = (Inl (BaseExc n), w1) \<longrightarrow>
      fst (route_actions H (pre @ a # post) c e (r, w)) = Inl (BaseExc n)
      \<and> snd (snd (route_actions H (pre @ a # post) c e (r, w))) = w1)"
proof (rule conjI; rule impI)
  assume asm: "(\<forall>b h w' n. H b = Some h \<longrightarrow> fst (h c e w') \<noteq> Inl (BaseExc n)) \<and> a \<notin> set post"
  then have nb: "\<And>b h w' n. H b = Some h \<Longrightarrow> fst (h c e w') \<noteq> Inl (BaseExc n)"
    by blast
  have ok: "fst (route_loop H c e (pre @ a # post) ([], r, w)) = None"
    using nb by (rule route_loop_no_base)
  from asm have "a \<notin> set post" by blast
  then have "map_of (fst (snd (route_loop H c e (pre @ a # post) ([], r, w)))) a =
     Some (case H a of
             None \<Rightarrow> unknown_action a
           | Some h \<Rightarrow>
               (case fst (h c e (snd (snd (snd (route_loop H c e pre ([], r, w)))))) of
                  Inr res \<Rightarrow> res
                | Inl x \<Rightarrow> handler_error (message x)))"
    using ok by (rule route_loop_last_occurrence)
  with ok show "\<exists>results. fst (route_actions H (pre @ a # post) c e (r, w)) = Inr results
         \<and> map_of results a =
             Some (case H a of
                     None \<Rightarrow> unknown_action a
                   | Some h \<Rightarrow>
                       (case fst (h c e (snd (snd (route_actions H pre c e (r, w))))) of
                          Inr res \<Rightarrow> res
                        | Inl x \<Rightarrow> handler_error (message x)))"
    unfolding route_actions_world by (simp add: route_actions_returns)
next
  assume asm: "(\<exists>results. fst (route_actions H pre c e (r, w)) = Inr results)
        \<and> H a = Some h
        \<and> h c e (snd (snd (route_actions H pre c e (r, w)))) = (Inl (BaseExc n), w1)"
  then have p: "fst (route_loop H c e pre ([], r, w)) = None"
    and h: "H a = Some h"
    and r: "h c e (snd (snd (snd (route_loop H c e pre ([], r, w))))) = (Inl (BaseExc n), w1)"
    by (auto simp: route_actions_returns route_actions_world)
  from route_loop_raises [OF p h r, of post]
  have l: "fst (route_loop H c e (pre @ a # post) ([], r, w)) = Some (BaseExc n)"
    and w: "snd (snd (snd (route_loop H c e (pre @ a # post) ([], r, w)))) = w1"
    by blast+
  from l have "fst (route_actions H (pre @ a # post) c e (r, w)) = Inl (BaseExc n)"
    by (cases "route_loop H c e (pre @ a # post) ([], r, w)") (auto simp: route_actions_def)
  with w show "fst (route_actions H (pre @ a # post) c e (r, w)) = Inl (BaseExc n)
      \<and> snd (snd (route_actions H (pre @ a # post) c e (r, w))) = w1"
    by (simp add: route_actions_world)
qed

theorem route_actions_outcome_per_action_witness:
  "(\<exists>results.
      fst (route_actions (action_handlers(''sync_ledger'' \<mapsto> raising_handler))
             ([''sync_ledger'', ''nonexistent_action''] @ ''log_error'' # [])
             [] ''0123456789'' (redis_empty, ())) = Inr results
      \<and> map_of results ''log_error''
           = Some [(''status'', ''logged''), (''error_id'', ''ERR-01234567''),
                   (''message'', ''Error logged for investigation'')])
   \<and> fst (route_actions (action_handlers(''sync_ledger'' \<mapsto> raising_handler))
            [''sync_ledger'', ''nonexistent_action''] [] ''0123456789'' (redis_empty, ()))
     = Inr [(''sync_ledger'', [(''status'', ''error''), (''message'', ''connection refused'')]),
            (''nonexistent_action'',
               [(''status'', ''unknown_action''),
                (''message'', ''No handler for action: nonexistent_action'')])]"
proof -
  have nb: "\<forall>b h w' n. (action_handlers(''sync_ledger'' \<mapsto> raising_handler)) b = Some h
              \<longrightarrow> fst (h [] ''0123456789'' (w'::unit)) \<noteq> Inl (BaseExc n)"
    by (intro allI impI) (rule registered_handlers_no_base)
  have "''log_error'' \<notin> set []" by simp
  with nb route_actions_outcome_per_action
      [of "action_handlers(''sync_ledger'' \<mapsto> raising_handler)" "[]" "''0123456789''"
          "''log_error''" "[]" "[''sync_ledger'', ''nonexistent_action'']" redis_empty "()"]
  have "\<exists>results.
      fst (route_actions (action_handlers(''sync_ledger'' \<mapsto> raising_handler))
             ([''sync_ledger'', ''nonexistent_action''] @ ''log_error'' # [])
             [] ''0123456789'' (redis_empty, ())) = Inr results
      \<and> map_of results ''log_error'' =
          Some (case (action_handlers(''sync_ledger'' \<mapsto> raising_handler)) ''log_error'' of
                  None \<Rightarrow> unknown_action ''log_error''
                | Some h \<Rightarrow>
                    (case fst (h [] ''0123456789''
                           (snd (snd (route_actions
                              (action_handlers(''sync_ledger'' \<mapsto> raising_handler))
                              [''sync_ledger'', ''nonexistent_action''] [] ''0123456789''
                              (redis_empty, ()))))) of
                       Inr res \<Rightarrow> res
                     | Inl x \<Rightarrow> handler_error (message x)))"
    by blast
  then have first: "\<exists>results.
      fst (route_actions (action_handlers(''sync_ledger'' \<mapsto> raising_handler))
             ([''sync_ledger'', ''nonexistent_action''] @ ''log_error'' # [])
             [] ''0123456789'' (redis_empty, ())) = Inr results
      \<and> map_of results ''log_error''
           = Some [(''status'', ''logged''), (''error_id'', ''ERR-01234567''),
                   (''message'', ''Error logged for investigation'')]"
    by (simp add: action_handlers_def simulated_def log_error_def)
  have "fst (route_actions (action_handlers(''sync_ledger'' \<mapsto> raising_handler))
            [''sync_ledger'', ''nonexistent_action''] [] ''0123456789'' (redis_empty, ()))
     = Inr [(''sync_ledger'', [(''status'', ''error''), (''message'', ''connection refused'')]),
            (''nonexistent_action'',
               [(''status'', ''unknown_action''),
                (''message'', ''No handler for action: nonexistent_action'')])]"
    by (simp add: route_actions_def route_step_def action_handlers_def raising_handler_def
        handler_error_def unknown_action_def)
  with first show ?thesis by blast
qed

text \<open>
  C10: the mapping that \<open>route_actions\<close> returns has exactly the distinct action ids of the
  input as its keys, each once; for an id \<open>a\<close> whose last occurrence splits the list as
  \<open>pre @ a # post\<close> the single entry is the outcome of that last occurrence; and the
  handlers are run once per occurrence, in listed order (the world after the call is the
  world after each occurrence's handler in turn).
\<close>

theorem route_actions_keyed_by_action:
  assumes "a \<notin> set post"
    and "fst (route_actions H (pre @ a # post) c e (r, w)) = Inr results"
  shows "fst ` set results = set (pre @ a # post)
   \<and> distinct (map fst results)
   \<and> length (filter (\<lambda>p. fst p = a) results) = 1
   \<and> map_of results a =
       Some (case H a of
               None \<Rightarrow> unknown_action a
             | Some h \<Rightarrow> (case fst (h c e (snd (snd (route_actions H pre c e (r, w))))) of
                            Inr res \<Rightarrow> res
                          | Inl x \<Rightarrow> handler_error (message x)))
   \<and> snd (snd (route_actions H (pre @ a # post) c e (r, w))) =
       fold (\<lambda>a w. case H a of None \<Rightarrow> w | Some h \<Rightarrow> snd (h c e w)) (pre @ a # post) w"
proof -
  from assms(2) have ok: "fst (route_loop H c e (pre @ a # post) ([], r, w)) = None"
    and res: "results = fst (snd (route_loop H c e (pre @ a # post) ([], r, w)))"
    by (simp_all add: route_actions_returns)
  have keys: "fst ` set results = set (pre @ a # post)"
    unfolding res using route_loop_keys [OF ok] by simp
  have dist: "distinct (map fst results)"
    unfolding res by (rule route_loop_distinct) simp
  have "a \<in> fst ` set results"
    using keys by simp
  with dist have one: "length (filter (\<lambda>p. fst p = a) results) = 1"
    by (rule one_entry_per_key)
  have val: "map_of results a =
       Some (case H a of
               None \<Rightarrow> unknown_action a
             | Some h \<Rightarrow> (case fst (h c e (snd (snd (route_actions H pre c e (r, w))))) of
                            Inr res \<Rightarrow> res
                          | Inl x \<Rightarrow> handler_error (message x)))"
    unfolding res route_actions_world using assms(1) ok by (rule route_loop_last_occurrence)
  have world: "snd (snd (route_actions H (pre @ a # post) c e (r, w))) =
       fold (\<lambda>a w. case H a of None \<Rightarrow> w | Some h \<Rightarrow> snd (h c e w)) (pre @ a # post) w"
    unfolding route_actions_world using route_loop_world [OF ok] by simp
  from keys dist one val world show ?thesis by blast
qed

theorem route_actions_keyed_by_action_witness:
  "fst (route_actions [''tally'' \<mapsto> counting_handler] ([''tally''] @ ''tally'' # [])
          [] ''e1'' (redis_empty, 0))
     = Inr [(''tally'', [(''status'', ''later call'')])]
   \<and> snd (snd (route_actions [''tally'' \<mapsto> counting_handler] ([''tally''] @ ''tally'' # [])
          [] ''e1'' (redis_empty, 0))) = 2"
proof -
  have ret: "fst (route_actions [''tally'' \<mapsto> counting_handler]
          ([''tally''] @ ''tally'' # []) [] ''e1'' (redis_empty, 0))
     = Inr [(''tally'', [(''status'', ''later call'')])]"
    by (simp add: route_actions_def route_step_def counting_handler_def)
  have "''tally'' \<notin> set []" by simp
  from route_actions_keyed_by_action [OF this ret]
  have "snd (snd (route_actions [''tally'' \<mapsto> counting_handler]
          ([''tally''] @ ''tally'' # []) [] ''e1'' (redis_empty, 0))) = 2"
    by (simp add: counting_handler_def)
  with ret show ?thesis by simp
qed

section \<open>Properties of the JSON agent\<close>

lemma and_then_Inr_iff: "and_then m f = Inr y \<longleftrightarrow> (\<exists>x. m = Inr x \<and> f x = Inr y)"
  by (cases m) simp_all

text \<open>A parse failure is caught and reported in the result (the part of C1 that holds).\<close>

lemma process_parse_failure:
  assumes "json_loads py s = Inl msg"
  shows "fst (process py self s cls eid clock r) =
     Inr \<lparr>agent = agent_name self,
           json_data = \<lparr>webhook_type = ''invalid'', payload = JDict [], schema_valid = False,
                        validation_errors = [''JSON Parse Error: '' @ msg],
                        anomalies = [''malformed_json''], extracted_fields = []\<rparr>,
           recommended_actions = [''log_error'', ''alert_admin''],
           processing_metadata =
             \<lparr>parsed_successfully = False, field_count = None,
              parse_error = Some msg, confidence = 0\<rparr>\<rparr>"
  using assms by (simp add: process_def)

lemma process_not_json:
  "map_sum id (\<lambda>res. (webhook_type (json_data res), schema_valid (json_data res),
                        anomalies (json_data res), recommended_actions res))
     (fst (process example_lib JSONAgent ''{not json'' example_classification ''e1''
             example_clock redis_empty))
   = Inr (''invalid'', False, [''malformed_json''], [''log_error'', ''alert_admin''])"
  by (simp add: process_def example_lib_def payment_text_def review_text_def)

lemma detect_anomalies_scalar: "detect_anomalies py (JInt n) wt = Inl TypeError"
  by (simp add: detect_anomalies_def amount_anomalies_def)

text \<open>
  C1 (the code departs from the claim): when the input is valid JSON for a number, such as
  \<open>5\<close>, \<open>json.loads\<close> returns an int, \<open>_detect_webhook_type\<close> answers \<open>unknown\<close>,
  \<open>_validate_schema\<close> passes, and \<open>"amount" in json_data\<close> in \<open>_detect_anomalies\<close> raises
  \<open>TypeError\<close>, which \<open>process\<close> does not catch: the caller gets the exception and no
  result.
\<close>

theorem process_scalar_raises:
  assumes "json_loads py s = Inr (JInt n)"
  shows "fst (process py self s cls eid clock r) = Inl TypeError"
  using assms
  by (simp add: process_def validate_schema_def webhook_schemas_def detect_anomalies_scalar)

theorem process_scalar_raises_witness:
  "json_loads example_lib ''5'' = Inr (JInt 5)
   \<and> fst (process example_lib JSONAgent ''5'' example_classification ''e1''
            example_clock redis_empty) = Inl TypeError"
proof -
  have h: "json_loads example_lib ''5'' = Inr (JInt 5)"
    by (simp add: example_lib_def payment_text_def review_text_def)
  from process_scalar_raises [OF h] h show ?thesis by simp
qed

lemma payment_validate: "validate_schema payment_payload ''payment'' = Inr (True, [])"
  by (simp add: validate_schema_def webhook_schemas_def payment_payload_def
        validate_field_types_def ends_with_def)

lemma payment_anomalies: "detect_anomalies py payment_payload ''payment'' = Inr []"
  by (simp add: detect_anomalies_def amount_anomalies_def timestamp_anomalies_def
      items_anomalies_def status_anomalies_def payment_payload_def lower_def)

lemma payment_type: "detect_webhook_type payment_payload = ''payment''"
  by (simp add: payment_payload_def has_any_field_def)

lemma payment_extract: "\<exists>x. extract_fields py payment_payload = Inr x"
  by (simp add: extract_fields_def payment_payload_def)

text \<open>
  C9: when \<open>json.loads\<close> maps the text
  \<open>{"transaction_id":"t1","amount":50,"currency":"USD","status":"ok"}\<close> to the dict it
  denotes, \<open>process\<close> returns a result with \<open>webhook_type\<close> \<open>payment\<close>, \<open>schema_valid\<close> true,
  no validation errors and no anomalies.
\<close>

theorem process_payment_payload:
  assumes "json_loads py payment_text = Inr payment_payload"
  shows "\<exists>res. fst (process py self payment_text cls eid clock r) = Inr res
           \<and> webhook_type (json_data res) = ''payment''
           \<and> schema_valid (json_data res)
           \<and> validation_errors (json_data res) = []
           \<and> anomalies (json_data res) = []"
proof -
  obtain x where "extract_fields py payment_payload = Inr x"
    using payment_extract by blast
  then show ?thesis
    using assms
    by (simp add: process_def payment_type payment_validate payment_anomalies)
qed

theorem process_payment_payload_witness:
  "json_loads example_lib payment_text = Inr payment_payload
   \<and> map_sum id (\<lambda>res. (webhook_type (json_data res), schema_valid (json_data res),
                        validation_errors (json_data res), anomalies (json_data res)))
        (fst (process example_lib JSONAgent payment_text example_classification ''e1''
               example_clock redis_empty))
       = Inr (''payment'', True, [], [])"
proof -
  have h: "json_loads example_lib payment_text = Inr payment_payload"
    by (simp add: example_lib_def)
  from process_payment_payload [OF h, of JSONAgent example_classification "''e1''"
      example_clock redis_empty]
  obtain res where
    "fst (process example_lib JSONAgent payment_text example_classification ''e1''
            example_clock redis_empty) = Inr res"
    "webhook_type (json_data res) = ''payment''" "schema_valid (json_data res)"
    "validation_errors (json_data res) = []" "anomalies (json_data res) = []"
    by blast
  with h show ?thesis by simp
qed

lemma process_actions:
  assumes "json_loads py s = Inr d" and "fst (process py self s cls eid clock r) = Inr res"
  shows "recommended_actions res
           = recommend_actions (anomalies (json_data res)) (schema_valid (json_data res))"
  using assms
  by (auto simp: process_def Let_def and_then_Inr_iff split: sum.splits prod.splits)

lemma recommend_actions_schema:
  "''log_schema_violation'' \<in> set (recommend_actions an valid) \<longleftrightarrow> \<not> valid"
  "''notify_integration_team'' \<in> set (recommend_actions an valid) \<longleftrightarrow> \<not> valid"
  by (simp_all add: recommend_actions_def)

lemma recommend_actions_financial:
  "''flag_financial_review'' \<in> set (recommend_actions an valid) \<longleftrightarrow>
     ''negative_amount'' \<in> set an \<or> ''unusually_high_amount'' \<in> set an"
  by (auto simp: recommend_actions_def)

lemma recommend_actions_quality:
  "''log_data_quality_issue'' \<in> set (recommend_actions an valid) \<longleftrightarrow>
     ''malformed_timestamp'' \<in> set an"
  by (auto simp: recommend_actions_def)

lemma recommend_actions_quarantine:
  "''quarantine_for_review'' \<in> set (recommend_actions an valid) \<longleftrightarrow> 2 < length an"
  by (auto simp: recommend_actions_def)

lemma recommend_actions_normal:
  "''process_normally'' \<in> set (recommend_actions an valid) \<longleftrightarrow> an = []"
  by (auto simp: recommend_actions_def)

lemma recommend_actions_only_normal:
  "recommend_actions an valid = [''process_normally''] \<longleftrightarrow> valid \<and> an = []"
  by (auto simp: recommend_actions_def)

text \<open>
  C5 (as stated, refuted): the payload \<open>{"timestamp": -1}\<close> parses, is schema-valid, and has
  the out-of-range timestamp anomaly \<open>invalid_timestamp_range\<close>; the recommended actions
  are empty: neither \<open>log_data_quality_issue\<close> nor \<open>process_normally\<close> is among them.
\<close>

theorem timestamp_range_no_action_counterexample:
  \<open>map_sum id (\<lambda>res. (schema_valid (json_data res), anomalies (json_data res),
                       recommended_actions res))
     (fst (process example_lib JSONAgent ''{"timestamp": -1}'' example_classification ''e1''
            example_clock redis_empty))
   = Inr (True, [''invalid_timestamp_range''], [])\<close>
  by (simp add: process_def example_lib_def payment_text_def review_text_def has_any_field_def
      validate_schema_def webhook_schemas_def detect_anomalies_def amount_anomalies_def
      timestamp_anomalies_def items_anomalies_def status_anomalies_def extract_fields_def
      recommend_actions_def)

text \<open>
  C5 (amended): for every payload that parses and is processed to a result, the recommended
  actions contain \<open>log_schema_violation\<close> and \<open>notify_integration_team\<close> iff schema
  validation failed; \<open>flag_financial_review\<close> iff \<open>negative_amount\<close> or
  \<open>unusually_high_amount\<close> was detected; \<open>log_data_quality_issue\<close> iff \<open>malformed_timestamp\<close>
  (a timestamp string that does not parse) was detected; \<open>quarantine_for_review\<close> iff more
  than two anomalies were detected; \<open>process_normally\<close> iff no anomaly was detected; and
  they are exactly \<open>[process_normally]\<close> iff the schema is valid and no anomaly was detected.
\<close>

theorem process_actions_additive:
  assumes "json_loads py s = Inr d" and "fst (process py self s cls eid clock r) = Inr res"
  shows "(''log_schema_violation'' \<in> set (recommended_actions res)
            \<longleftrightarrow> \<not> schema_valid (json_data res))
   \<and> (''notify_integration_team'' \<in> set (recommended_actions res)
            \<longleftrightarrow> \<not> schema_valid (json_data res))
   \<and> (''flag_financial_review'' \<in> set (recommended_actions res)
            \<longleftrightarrow> ''negative_amount'' \<in> set (anomalies (json_data res))
                \<or> ''unusually_high_amount'' \<in> set (anomalies (json_data res)))
   \<and> (''log_data_quality_issue'' \<in> set (recommended_actions res)
            \<longleftrightarrow> ''malformed_timestamp'' \<in> set (anomalies (json_data res)))
   \<and> (''quarantine_for_review'' \<in> set (recommended_actions res)
            \<longleftrightarrow> 2 < length (anomalies (json_data res)))
   \<and> (''process_normally'' \<in> set (recommended_actions res)
            \<longleftrightarrow> anomalies (json_data res) = [])
   \<and> (recommended_actions res = [''process_normally'']
            \<longleftrightarrow> schema_valid (json_data res) \<and> anomalies (json_data res) = [])"
  unfolding process_actions [OF assms]
  by (simp only: recommend_actions_schema recommend_actions_financial recommend_actions_quality
      recommend_actions_quarantine recommend_actions_normal recommend_actions_only_normal
      simp_thms)

lemma process_review_text:
  "map_sum id (\<lambda>res. (schema_valid (json_data res), anomalies (json_data res),
                        recommended_actions res))
     (fst (process example_lib JSONAgent review_text example_classification ''e1''
            example_clock redis_empty))
   = Inr (False, [''negative_amount'', ''malformed_timestamp''],
          [''log_schema_violation'', ''notify_integration_team'',
           ''flag_financial_review'', ''log_data_quality_issue''])"
  by (simp add: process_def example_lib_def payment_text_def review_text_def
      review_payload_def has_any_field_def validate_schema_def webhook_schemas_def validate_field_types_def
      ends_with_def detect_anomalies_def amount_anomalies_def
      timestamp_anomalies_def items_anomalies_def status_anomalies_def extract_fields_def
      recommend_actions_def replace_char_def)

theorem process_actions_additive_witness:
  "json_loads example_lib review_text = Inr review_payload
   \<and> (\<exists>res. fst (process example_lib JSONAgent review_text example_classification ''e1''
                  example_clock redis_empty) = Inr res
          \<and> \<not> schema_valid (json_data res)
          \<and> ''log_schema_violation'' \<in> set (recommended_actions res)
          \<and> ''negative_amount'' \<in> set (anomalies (json_data res))
          \<and> ''flag_financial_review'' \<in> set (recommended_actions res)
          \<and> ''malformed_timestamp'' \<in> set (anomalies (json_data res))
          \<and> ''log_data_quality_issue'' \<in> set (recommended_actions res)
          \<and> ''quarantine_for_review'' \<notin> set (recommended_actions res)
          \<and> ''process_normally'' \<notin> set (recommended_actions res))"
proof -
  have h1: "json_loads example_lib review_text = Inr review_payload"
    by (simp add: example_lib_def payment_text_def review_text_def)
  obtain res where h2:
    "fst (process example_lib JSONAgent review_text example_classification ''e1''
            example_clock redis_empty) = Inr res"
    and v: "schema_valid (json_data res) = False"
    and a: "anomalies (json_data res) = [''negative_amount'', ''malformed_timestamp'']"
    using process_review_text
    by (cases "fst (process example_lib JSONAgent review_text example_classification ''e1''
            example_clock redis_empty)") auto
  from process_actions_additive [OF h1 h2] v a h1 h2 show ?thesis
    by simp
qed

section \<open>Properties of the classifier\<close>

lemma lower_char_table:
  "map lower_char ''ABCDEFGHIJKLMNOPQRSTUVWXYZ'' = ''abcdefghijklmnopqrstuvwxyz''"
  by simp

lemma lower_char_other:
  "c \<notin> set ''ABCDEFGHIJKLMNOPQRSTUVWXYZ'' \<Longrightarrow> lower_char c = c"
proof (cases c)
  case (Char b0 b1 b2 b3 b4 b5 b6 b7)
  assume "c \<notin> set ''ABCDEFGHIJKLMNOPQRSTUVWXYZ''"
  then show ?thesis
    unfolding Char
    by (cases b0; cases b1; cases b2; cases b3; cases b4; cases b5; cases b6; cases b7)
       simp_all
qed

lemma pattern_matches_filter:
  "pattern_matches ps s = length (filter (\<lambda>p. search True p s \<noteq> None) ps)"
  by (induction ps) simp_all

lemma keyword_score_filter:
  "keyword_score ks s = length (filter (\<lambda>k. contains (lower s) (lower k)) ks)"
  by (induction ks) simp_all

lemma fraction_bounds:
  fixes m n :: nat
  assumes "m \<le> n"
  shows "0 \<le> real m / real (max n 1) \<and> real m / real (max n 1) \<le> 1"
proof -
  have "real m \<le> real (max n 1)" using assms by simp
  moreover have "0 < real (max n 1)" by simp
  ultimately have "real m / real (max n 1) \<le> 1" by (simp add: divide_le_eq_1)
  then show ?thesis by simp
qed

text \<open>
  C2: for every input and every format and intent (in particular the ones the classifier
  chose), the confidence is \<open>(f + i) / 2\<close>, where \<open>f\<close> is the number of patterns of the format
  that match the input, ignoring case, over the number of its patterns or 1, and \<open>i\<close> the
  number of keywords of the intent that occur in the lower-cased input over the number of
  its keywords or 1; it lies between 0 and 1.
\<close>

theorem confidence_formula:
  "calculate_confidence s fmt intent =
     (real (length (filter (\<lambda>p. search True p s \<noteq> None) (get_or_empty format_patterns fmt)))
        / real (max (length (get_or_empty format_patterns fmt)) 1)
      + real (length (filter (\<lambda>k. contains (lower s) (lower k))
                        (get_or_empty intent_keywords intent)))
        / real (max (length (get_or_empty intent_keywords intent)) 1)) / 2
   \<and> 0 \<le> calculate_confidence s fmt intent
   \<and> calculate_confidence s fmt intent \<le> 1"
proof -
  let ?ps = "get_or_empty format_patterns fmt"
  let ?ks = "get_or_empty intent_keywords intent"
  define f where
    "f = real (length (filter (\<lambda>p. search True p s \<noteq> None) ?ps)) / real (max (length ?ps) 1)"
  define i where
    "i = real (length (filter (\<lambda>k. contains (lower s) (lower k)) ?ks))
           / real (max (length ?ks) 1)"
  have eq: "calculate_confidence s fmt intent = (f + i) / 2"
    by (simp add: calculate_confidence_def Let_def pattern_matches_filter keyword_score_filter
        f_def i_def)
  have f: "0 \<le> f \<and> f \<le> 1"
    unfolding f_def by (rule fraction_bounds) (rule length_filter_le)
  have i: "0 \<le> i \<and> i \<le> 1"
    unfolding i_def by (rule fraction_bounds) (rule length_filter_le)
  from f i have "0 \<le> (f + i) / 2 \<and> (f + i) / 2 \<le> 1" by simp
  then have bnd:
    "0 \<le> calculate_confidence s fmt intent \<and> calculate_confidence s fmt intent \<le> 1"
    by (simp only: eq)
  from eq [unfolded f_def i_def] bnd show ?thesis by blast
qed

lemma invoice_note_format: "detect_format invoice_note = PDF"
  by code_simp

lemma invoice_note_intent: "detect_intent invoice_note = INVOICE"
  by code_simp

lemma invoice_note_matches:
  "pattern_matches (get_or_empty format_patterns PDF) invoice_note = 2"
  "length (get_or_empty format_patterns PDF) = 7"
  "keyword_score (get_or_empty intent_keywords INVOICE) invoice_note = 2"
  "length (get_or_empty intent_keywords INVOICE) = 8"
  by code_simp+

theorem confidence_formula_witness:
  "calculate_confidence invoice_note (detect_format invoice_note) (detect_intent invoice_note)
     = 15 / 56
   \<and> 0 \<le> calculate_confidence invoice_note (detect_format invoice_note)
              (detect_intent invoice_note)
   \<and> calculate_confidence invoice_note (detect_format invoice_note)
              (detect_intent invoice_note) \<le> 1"
proof -
  have "calculate_confidence invoice_note PDF INVOICE = 15 / 56"
    by (simp add: calculate_confidence_def Let_def invoice_note_matches)
  with confidence_formula [of invoice_note PDF INVOICE] show ?thesis
    by (simp add: invoice_note_format invoice_note_intent)
qed





section \<open>Properties of the email agent\<close>














lemma lit_Cons: "lit (a # w) = Seq (Chr a) (lit w)"
  by (simp add: lit_def seqs_def)





















section \<open>Properties of the PDF agent\<close>

lemma lit_match_prefix:
  "rx_match True (lit w) prev t g \<noteq> [] \<Longrightarrow> starts_with (lower t) (lower w)"
proof (induction w arbitrary: prev t g)
  case Nil
  then show ?case by (simp add: lower_def)
next
  case (Cons c w)
  show ?case
  proof (cases t)
    case Nil
    with Cons.prems show ?thesis by (simp add: lit_Cons)
  next
    case (Cons x xs)
    show ?thesis
    proof (cases "chr_eq True c x")
      case True
      with Cons.prems Cons have "rx_match True (lit w) (Some x) xs g \<noteq> []"
        by (auto simp: lit_Cons)
      then have "starts_with (lower xs) (lower w)" by (rule Cons.IH)
      with True Cons show ?thesis by (simp add: lower_def chr_eq_def)
    next
      case False
      with Cons.prems Cons show ?thesis by (simp add: lit_Cons)
    qed
  qed
qed

lemma total_needs_word:
  assumes "\<not> starts_with (lower t) ''total''"
  shows "rx_match True total_pattern prev t g = []"
proof -
  have "lower ''total'' = ''total''" by (simp add: lower_def)
  with assms lit_match_prefix [of "''total''" prev t g]
  have e: "rx_match True (lit ''total'') prev t g = []" by auto
  have pat: "total_pattern =
      Seq (lit ''total'')
        (seqs [plus (Cls colon_or_space), opt (Chr CHR ''$''), Group 1 amount_rx])"
    by (simp add: total_pattern_def seqs_def)
  show ?thesis
    unfolding pat rx_match.simps(4) e by simp
qed

lemma straddle:
  assumes "starts_with (a @ ''total: $12,500.00'' @ b) ''total''" and "a \<noteq> []"
  shows "starts_with a ''total''"
proof -
  consider "a = []" | x1 where "a = [x1]" | x1 x2 where "a = [x1, x2]"
    | x1 x2 x3 where "a = [x1, x2, x3]" | x1 x2 x3 x4 where "a = [x1, x2, x3, x4]"
    | x1 x2 x3 x4 x5 a' where "a = x1 # x2 # x3 # x4 # x5 # a'"
    by (cases a; cases "tl a"; cases "tl (tl a)"; cases "tl (tl (tl a))";
        cases "tl (tl (tl (tl a)))") auto
  then show ?thesis
    using assms by cases auto
qed

lemma total_at_target:
  "(case rx_match True total_pattern prev (''Total: $12,500.00'' @ suf) [] of
      [] \<Rightarrow> None
    | (c, p, s', g) # _ \<Rightarrow> Some (c, g)) = Some (''Total: $12,500.00'', [(1, ''12,500.00'')])"
  by (simp add: total_pattern_def amount_rx_def seqs_def lit_def plus_def opt_def rep_def
      chr_eq_def is_digit_def colon_or_space_def is_space_def eval_nat_numeral)

lemma search_total:
  assumes "\<not> contains (lower pre) ''total''"
  shows "rx_search True total_pattern prev (pre @ ''Total: $12,500.00'' @ suf)
           = Some (''Total: $12,500.00'', [(1, ''12,500.00'')])"
  using assms
proof (induction pre arbitrary: prev)
  case Nil
  have shape: "[] @ ''Total: $12,500.00'' @ suf = CHR ''T'' # (''otal: $12,500.00'' @ suf)"
    by simp
  from total_at_target [of prev suf]
  obtain c p s' g rest where
    m: "rx_match True total_pattern prev (CHR ''T'' # (''otal: $12,500.00'' @ suf)) []
          = (c, p, s', g) # rest"
    and r: "(c, g) = (''Total: $12,500.00'', [(1, ''12,500.00'')])"
    by (cases "rx_match True total_pattern prev (''Total: $12,500.00'' @ suf) []")
       (auto simp del: rx_match.simps)
  show ?case
    unfolding shape rx_search.simps(2) m using r by simp
next
  case (Cons c cs)
  have c1: "contains (lower (c # cs)) ''total''
              = (starts_with (lower (c # cs)) ''total'' \<or> contains (lower cs) ''total'')"
    by (simp only: lower_def list.map contains.simps(2))
  with Cons.prems have ns: "\<not> starts_with (lower (c # cs)) ''total''"
    and nc: "\<not> contains (lower cs) ''total''" by blast+
  have low: "lower ((c # cs) @ ''Total: $12,500.00'' @ suf)
               = lower (c # cs) @ ''total: $12,500.00'' @ lower suf"
    by (simp add: lower_def)
  have "\<not> starts_with (lower ((c # cs) @ ''Total: $12,500.00'' @ suf)) ''total''"
  proof
    assume "starts_with (lower ((c # cs) @ ''Total: $12,500.00'' @ suf)) ''total''"
    then have "starts_with (lower (c # cs)) ''total''"
      unfolding low by (rule straddle) (simp add: lower_def)
    with ns show False by blast
  qed
  then have "rx_match True total_pattern prev ((c # cs) @ ''Total: $12,500.00'' @ suf) [] = []"
    by (rule total_needs_word)
  then have "rx_search True total_pattern prev ((c # cs) @ ''Total: $12,500.00'' @ suf)
               = rx_search True total_pattern (Some c) (cs @ ''Total: $12,500.00'' @ suf)"
    by (simp only: append_Cons rx_search.simps(2) list.case)
  also have "\<dots> = Some (''Total: $12,500.00'', [(1, ''12,500.00'')])"
    using nc by (rule Cons.IH)
  finally show ?case .
qed

lemma rx_search_elem:
  "rx_search ic r prev s = Some (c, g)
    \<Longrightarrow> \<exists>prev' t p s'. (c, p, s', g) \<in> set (rx_match ic r prev' t [])"
proof (induction s arbitrary: prev)
  case Nil
  show ?case
  proof (cases "rx_match ic r prev [] []")
    case Nil
    with \<open>rx_search ic r prev [] = Some (c, g)\<close> show ?thesis by simp
  next
    case (Cons m ms)
    with \<open>rx_search ic r prev [] = Some (c, g)\<close> have "\<exists>p s'. m = (c, p, s', g)"
      by (cases m) (simp del: rx_match.simps)
    with Cons show ?thesis by (metis list.set_intros(1))
  qed
next
  case (Cons x xs)
  show ?case
  proof (cases "rx_match ic r prev (x # xs) []")
    case Nil
    with Cons.prems have "rx_search ic r (Some x) xs = Some (c, g)" by simp
    then show ?thesis by (rule Cons.IH)
  next
    case (Cons m ms)
    with Cons.prems have "\<exists>p s'. m = (c, p, s', g)"
      by (cases m) (simp del: rx_match.simps)
    with Cons show ?thesis by (metis list.set_intros(1))
  qed
qed

lemma seqs4_group:
  "(c, p, s', g') \<in> set (rx_match ic (seqs [a, b, d, Group n r]) prev s g)
     \<Longrightarrow> map_of g' n \<noteq> None"
  by (auto simp: seqs_def)

lemma total_group:
  assumes "search True total_pattern doc = Some (m, groups)"
  shows "map_of groups 1 \<noteq> None"
proof -
  from assms obtain prev' t p s' where
    "(m, p, s', groups) \<in> set (rx_match True total_pattern prev' t [])"
    unfolding search_def by (auto dest: rx_search_elem)
  then show ?thesis
    unfolding total_pattern_def by (rule seqs4_group)
qed

lemma amount_due_group:
  assumes "search True amount_due_pattern doc = Some (m, groups)"
  shows "map_of groups 1 \<noteq> None"
proof -
  from assms obtain prev' t p s' where
    "(m, p, s', groups) \<in> set (rx_match True amount_due_pattern prev' t [])"
    unfolding search_def by (auto dest: rx_search_elem)
  then show ?thesis
    unfolding amount_due_pattern_def by (rule seqs4_group)
qed

lemma extract_total_spec:
  "extract_total py total_patterns doc =
     Inr (case parsed_amount py total_pattern doc of
            Some v \<Rightarrow> Some v
          | None \<Rightarrow> parsed_amount py amount_due_pattern doc)"
  using total_group [of doc] amount_due_group [of doc]
  by (auto simp: total_patterns_def parsed_amount_def split: option.splits)

lemma process_pdf_invoice:
  assumes "determine_document_type doc = ''invoice''"
  shows "\<exists>d. process_pdf py doc = Inr d
           \<and> document_type d = ''invoice''
           \<and> total_amount d =
               (case parsed_amount py total_pattern doc of
                  Some v \<Rightarrow> Some v
                | None \<Rightarrow> parsed_amount py amount_due_pattern doc)
           \<and> flags d = check_compliance_flags doc ''invoice'' (total_amount d)"
  using assms
  by (simp add: process_pdf_def Let_def extract_invoice_data_def extract_total_spec
      del: extract_total.simps)

lemma invoice_keyword_type:
  "contains (lower doc) ''invoice'' \<Longrightarrow> determine_document_type doc = ''invoice''"
  by (simp add: determine_document_type_def Let_def del: contains.simps)

lemma high_value_flag:
  "''high_value_invoice'' \<in> set (check_compliance_flags doc ''invoice'' (Some (FFinite 12500)))"
  by (simp add: check_compliance_flags_def Let_def del: contains.simps)

lemma parsed_amount_target:
  assumes "float_of_str py ''12500.00'' = Some (FFinite 12500)"
    and "\<not> contains (lower pre) ''total''"
  shows "parsed_amount py total_pattern (pre @ ''Total: $12,500.00'' @ suf)
           = Some (FFinite 12500)"
proof -
  have "search True total_pattern (pre @ ''Total: $12,500.00'' @ suf)
          = Some (''Total: $12,500.00'', [(1, ''12,500.00'')])"
    unfolding search_def using assms(2) by (rule search_total)
  then show ?thesis
    using assms(1) by (simp add: parsed_amount_def replace_char_def)
qed

text \<open>
  C8 (as stated, refuted): the text \<open>Invoice Subtotal: 5 Total: $12,500.00\<close> contains
  \<open>Total: $12,500.00\<close> and the keyword \<open>invoice\<close>, and \<open>float\<close> parses \<open>12500.00\<close>; the
  leftmost match of the first pattern is \<open>total: 5\<close>, inside \<open>Subtotal: 5\<close>, so the total
  amount is 5 and the flag \<open>high_value_invoice\<close> is not raised.
\<close>

theorem subtotal_first_counterexample:
  "contains subtotal_text ''Total: $12,500.00''
   \<and> contains (lower subtotal_text) ''invoice''
   \<and> float_of_str example_lib ''12500.00'' = Some (FFinite 12500)
   \<and> map_sum id (\<lambda>d. (document_type d, total_amount d, ''high_value_invoice'' \<in> set (flags d)))
        (process_pdf example_lib subtotal_text)
      = Inr (''invoice'', Some (FFinite 5), False)"
  by code_simp

text \<open>
  C8 (amended): for every text classified as an invoice, the total amount is the parsed
  amount of the first pattern, in the order total, amount due, that matches and whose
  captured, comma-stripped amount (that of its leftmost match) parses as a float; a pattern
  that does not match or whose amount does not parse is passed over, and there is no total
  when none is left. In particular a text that contains \<open>Total: $12,500.00\<close> and the keyword
  \<open>invoice\<close>, with no \<open>total\<close> (in any case) in the text before that occurrence, has document
  type \<open>invoice\<close>, total amount 12500.00 and the flag \<open>high_value_invoice\<close>, given that \<open>float\<close>
  parses \<open>12500.00\<close> as 12500.
\<close>

theorem invoice_total_rule:
  "(determine_document_type doc = ''invoice'' \<longrightarrow>
      (\<exists>d. process_pdf py doc = Inr d
           \<and> total_amount d =
               (case parsed_amount py total_pattern doc of
                  Some v \<Rightarrow> Some v
                | None \<Rightarrow> parsed_amount py amount_due_pattern doc)))
   \<and> (float_of_str py ''12500.00'' = Some (FFinite 12500)
        \<and> \<not> contains (lower pre) ''total''
        \<and> contains (lower (pre @ ''Total: $12,500.00'' @ suf)) ''invoice'' \<longrightarrow>
      (\<exists>d. process_pdf py (pre @ ''Total: $12,500.00'' @ suf) = Inr d
           \<and> document_type d = ''invoice''
           \<and> total_amount d = Some (FFinite 12500)
           \<and> ''high_value_invoice'' \<in> set (flags d)))"
proof (intro conjI impI)
  assume "determine_document_type doc = ''invoice''"
  from process_pdf_invoice [OF this, of py]
  show "\<exists>d. process_pdf py doc = Inr d
           \<and> total_amount d =
               (case parsed_amount py total_pattern doc of
                  Some v \<Rightarrow> Some v
                | None \<Rightarrow> parsed_amount py amount_due_pattern doc)"
    by blast
next
  let ?doc = "pre @ ''Total: $12,500.00'' @ suf"
  assume a: "float_of_str py ''12500.00'' = Some (FFinite 12500)
        \<and> \<not> contains (lower pre) ''total''
        \<and> contains (lower ?doc) ''invoice''"
  then have ty: "determine_document_type ?doc = ''invoice''"
    by (intro invoice_keyword_type) blast
  from a have pa: "parsed_amount py total_pattern ?doc = Some (FFinite 12500)"
    by (intro parsed_amount_target) blast+
  from process_pdf_invoice [OF ty, of py] obtain d where
    d: "process_pdf py ?doc = Inr d" "document_type d = ''invoice''"
      "total_amount d =
         (case parsed_amount py total_pattern ?doc of
            Some v \<Rightarrow> Some v
          | None \<Rightarrow> parsed_amount py amount_due_pattern ?doc)"
      "flags d = check_compliance_flags ?doc ''invoice'' (total_amount d)"
    by blast
  from d(3) pa have t: "total_amount d = Some (FFinite 12500)" by simp
  from d(4) t have "''high_value_invoice'' \<in> set (flags d)"
    by (simp only: high_value_flag)
  with d(1,2) t show "\<exists>d. process_pdf py ?doc = Inr d
           \<and> document_type d = ''invoice''
           \<and> total_amount d = Some (FFinite 12500)
           \<and> ''high_value_invoice'' \<in> set (flags d)"
    by blast
qed

lemma invoice_text_shape:
  "invoice_text = ''Invoice '' @ ''Total: $12,500.00'' @ '' due on receipt''"
  by (simp add: invoice_text_def)

lemma invoice_text_facts:
  "float_of_str example_lib ''12500.00'' = Some (FFinite 12500)"
  "\<not> contains (lower ''Invoice '') ''total''"
  "contains (lower (''Invoice '' @ ''Total: $12,500.00'' @ '' due on receipt'')) ''invoice''"
  by code_simp+

theorem invoice_total_rule_witness:
  "float_of_str example_lib ''12500.00'' = Some (FFinite 12500)
   \<and> \<not> contains (lower ''Invoice '') ''total''
   \<and> contains (lower invoice_text) ''invoice''
   \<and> (\<exists>d. process_pdf example_lib invoice_text = Inr d
          \<and> document_type d = ''invoice''
          \<and> total_amount d = Some (FFinite 12500)
          \<and> ''high_value_invoice'' \<in> set (flags d))"
  using invoice_total_rule [of invoice_text example_lib "''Invoice ''" "'' due on receipt''"]
    invoice_text_facts
  unfolding invoice_text_shape by blast

end
